theory Spec2Isabelle
  imports Complex_Main "HOL-Library.Log_Nat"
begin

section \<open>JavaScript numbers\<close>

text \<open>
  The calculator computes with JavaScript \<open>number\<close> values.  Two models are used.

  The first model, of this section, keeps the part of their behaviour that the
  structure of the results depends on: a number is a finite value, one of the two
  infinities, or NaN; no operation throws; a division by zero yields an infinity or NaN.
  Finite values are exact reals: rounding, overflow of finite results and the sign of
  zero (a zero divisor counts as \<open>+0\<close>) are not modelled.  It serves the properties that
  say which operations produce a result, on which guards, and at the values of the
  specification's scenario.

  The second model, of the section on binary64 numbers below, is the IEEE 754 double
  precision arithmetic of the language: every operation rounds to the nearest double,
  ties to even, overflows to an infinity, and keeps the sign of zero.  It serves the
  properties whose truth depends on rounding.
\<close>

datatype jsnum = Fin real | PInf | NInf | NaN

fun is_finite :: "jsnum \<Rightarrow> bool" where
  "is_finite (Fin x) = True"
| "is_finite PInf = False"
| "is_finite NInf = False"
| "is_finite NaN = False"

definition signed_inf :: "real \<Rightarrow> jsnum" where
  "signed_inf s = (if 0 < s then PInf else if s < 0 then NInf else NaN)"

fun jsign :: "jsnum \<Rightarrow> real" where
  "jsign (Fin x) = sgn x"
| "jsign PInf = 1"
| "jsign NInf = - 1"
| "jsign NaN = 0"

fun jneg :: "jsnum \<Rightarrow> jsnum" where
  "jneg (Fin x) = Fin (- x)"
| "jneg PInf = NInf"
| "jneg NInf = PInf"
| "jneg NaN = NaN"

fun jadd :: "jsnum \<Rightarrow> jsnum \<Rightarrow> jsnum" where
  "jadd (Fin x) (Fin y) = Fin (x + y)"
| "jadd NaN b = NaN"
| "jadd a NaN = NaN"
| "jadd PInf NInf = NaN"
| "jadd NInf PInf = NaN"
| "jadd PInf b = PInf"
| "jadd a PInf = PInf"
| "jadd NInf b = NInf"
| "jadd a NInf = NInf"

definition jsub :: "jsnum \<Rightarrow> jsnum \<Rightarrow> jsnum" where
  "jsub a b = jadd a (jneg b)"

fun jmul :: "jsnum \<Rightarrow> jsnum \<Rightarrow> jsnum" where
  "jmul (Fin x) (Fin y) = Fin (x * y)"
| "jmul NaN b = NaN"
| "jmul a NaN = NaN"
| "jmul a b = signed_inf (jsign a * jsign b)"

fun jdiv :: "jsnum \<Rightarrow> jsnum \<Rightarrow> jsnum" where
  "jdiv (Fin x) (Fin y) = (if y = 0 then signed_inf x else Fin (x / y))"
| "jdiv NaN b = NaN"
| "jdiv a NaN = NaN"
| "jdiv (Fin x) b = Fin 0"
| "jdiv a (Fin y) = signed_inf (jsign a * (if y < 0 then - 1 else 1))"
| "jdiv a b = NaN"

text \<open>The comparison \<open>a > b\<close>: false whenever an operand is NaN.\<close>

fun jgt :: "jsnum \<Rightarrow> jsnum \<Rightarrow> bool" where
  "jgt (Fin x) (Fin y) = (y < x)"
| "jgt NaN b = False"
| "jgt a NaN = False"
| "jgt a PInf = False"
| "jgt PInf b = True"
| "jgt NInf b = False"
| "jgt a NInf = True"

text \<open>\<open>Math.pow\<close> at an exponent that is a non-negative integer.\<close>

fun jpow :: "jsnum \<Rightarrow> nat \<Rightarrow> jsnum" where
  "jpow a 0 = Fin 1"
| "jpow (Fin x) n = Fin (x ^ n)"
| "jpow PInf n = PInf"
| "jpow NInf n = (if odd n then NInf else PInf)"
| "jpow NaN n = NaN"


section \<open>Data model\<close>

text \<open>
  The form state of \<open>App\<close> that the metrics effect reads.  Every field is set by
  \<open>Number(e.target.value)\<close> of a numeric input and holds a finite number; nothing
  restricts its sign.
\<close>

record BusinessInputs =
  franchiseFee :: real
  buildOut :: real
  equipment :: real
  workingCapital :: real
  contractTerm_input :: real
  avgTicket :: real
  dailyCust :: real
  daysOpen :: real
  cogsPercent :: real
  laborPercent :: real
  royaltyPercent :: real
  marketingPercent :: real
  rentMonthly :: real
  salariesMonthly :: real
  miscMonthly :: real

text \<open>The interface \<open>FinancialMetrics\<close>.\<close>

record FinancialMetrics =
  totalInvestment :: jsnum
  annualRevenue :: jsnum
  annualExpenses :: jsnum
  netProfit :: jsnum
  monthlyNet :: jsnum
  roiYears :: jsnum
  breakEvenMonths :: jsnum
  margin :: jsnum
  contractTerm :: jsnum
  requiredDailyCustomers :: jsnum
  requiredDailyCustomersForMargin :: jsnum


section \<open>The metrics effect\<close>

text \<open>
  The body of the \<open>useEffect\<close> that recomputes the metrics, as a function of the form
  state; its result is the record passed to \<open>setMetrics\<close>.
\<close>

definition derive :: "BusinessInputs \<Rightarrow> FinancialMetrics" where
  "derive inp =
    (let totalInv = jadd (jadd (jadd (Fin (franchiseFee inp)) (Fin (buildOut inp)))
                      (Fin (equipment inp))) (Fin (workingCapital inp));
         annualRev = jmul (jmul (Fin (avgTicket inp)) (Fin (dailyCust inp))) (Fin (daysOpen inp));
         cogs = jmul annualRev (jdiv (Fin (cogsPercent inp)) (Fin 100));
         labor = jmul annualRev (jdiv (Fin (laborPercent inp)) (Fin 100));
         royalties = jmul annualRev (jdiv (Fin (royaltyPercent inp)) (Fin 100));
         marketing = jmul annualRev (jdiv (Fin (marketingPercent inp)) (Fin 100));
         rent = jmul (Fin (rentMonthly inp)) (Fin 12);
         salaries = jmul (Fin (salariesMonthly inp)) (Fin 12);
         misc = jmul (Fin (miscMonthly inp)) (Fin 12);
         totalAnnualExpenses =
           jadd (jadd (jadd (jadd (jadd (jadd cogs labor) royalties) marketing) rent) salaries) misc;
         annualNetProfit = jsub annualRev totalAnnualExpenses;
         monthlyNetProfit = jdiv annualNetProfit (Fin 12);
         profitable = jgt annualNetProfit (Fin 0);
         paybackYears = (if profitable then jdiv totalInv annualNetProfit else Fin 0);
         breakEvenM = (if profitable then jdiv totalInv monthlyNetProfit else Fin 0);
         targetMonthlyNetROI = jmul totalInv (Fin (1 / 10));
         monthlyFixedCosts =
           jadd (jadd (Fin (rentMonthly inp)) (Fin (salariesMonthly inp))) (Fin (miscMonthly inp));
         requiredMonthlyContributionROI = jadd targetMonthlyNetROI monthlyFixedCosts;
         variableCostPercent =
           jadd (jadd (jadd (Fin (cogsPercent inp)) (Fin (laborPercent inp)))
             (Fin (royaltyPercent inp))) (Fin (marketingPercent inp));
         marginPerCustomer =
           jmul (Fin (avgTicket inp)) (jsub (Fin 1) (jdiv variableCostPercent (Fin 100)));
         reqDailyCustomers =
           (if jgt marginPerCustomer (Fin 0) \<and> jgt (Fin (daysOpen inp)) (Fin 0)
            then (let requiredMonthlyCustomers = jdiv requiredMonthlyContributionROI marginPerCustomer
                  in jdiv requiredMonthlyCustomers (jdiv (Fin (daysOpen inp)) (Fin 12)))
            else Fin 0);
         targetNetMargin = Fin (1 / 10);
         variableRatio = jdiv variableCostPercent (Fin 100);
         denominator = jsub (jsub (Fin 1) variableRatio) targetNetMargin;
         reqDailyCustomersForMargin =
           (if jgt denominator (Fin 0)
            then (let annualFixedCosts = jmul monthlyFixedCosts (Fin 12);
                      requiredAnnualRevenueForMargin = jdiv annualFixedCosts denominator
                  in jdiv (jdiv requiredAnnualRevenueForMargin (Fin (daysOpen inp)))
                       (Fin (avgTicket inp)))
            else Fin 0)
     in \<lparr> totalInvestment = totalInv,
          annualRevenue = annualRev,
          annualExpenses = totalAnnualExpenses,
          netProfit = annualNetProfit,
          monthlyNet = monthlyNetProfit,
          roiYears = paybackYears,
          breakEvenMonths = breakEvenM,
          margin = (if jgt annualRev (Fin 0)
                    then jmul (jdiv annualNetProfit annualRev) (Fin 100) else Fin 0),
          contractTerm = Fin (contractTerm_input inp),
          requiredDailyCustomers = reqDailyCustomers,
          requiredDailyCustomersForMargin = reqDailyCustomersForMargin \<rparr>)"

text \<open>The initial form state of \<open>App\<close> (the arguments of its \<open>useState\<close> calls).\<close>

definition default_inputs :: BusinessInputs where
  "default_inputs =
    \<lparr> franchiseFee = 500000, buildOut = 300000, equipment = 75000, workingCapital = 50000,
      contractTerm_input = 10, avgTicket = 100, dailyCust = 50, daysOpen = 320,
      cogsPercent = 30, laborPercent = 25, royaltyPercent = 6, marketingPercent = 2,
      rentMonthly = 50000, salariesMonthly = 30000, miscMonthly = 20000 \<rparr>"


section \<open>The projection generator\<close>

text \<open>
  The state of \<open>ReportGenerator\<close> that \<open>generateData\<close> reads.  \<open>startYear\<close> and
  \<open>startMonth\<close> are \<open>start.getFullYear()\<close> and \<open>start.getMonth()\<close> of the parsed start
  date (a start date that does not parse, and the range limit of \<open>Date\<close>, are not
  modelled).  \<open>durationYears\<close> is the value of a select whose options are whole years.
\<close>

datatype interval_kind = monthly | yearly

record ProjectionConfig =
  startYear :: int
  startMonth :: int
  durationYears :: nat
  interval :: interval_kind
  growthRate :: real

text \<open>
  A row of the report.  The two template strings of \<open>period\<close> and the two renderings of
  the row's date are kept symbolic: \<open>Month n\<close> is \<open>`Month ${n}`\<close>, \<open>FullYear y\<close> is
  \<open>getFullYear().toString()\<close>, and \<open>ShortMonthYear y mo\<close> is the locale's short month and
  two-digit year of the calendar month \<open>mo\<close> of year \<open>y\<close>.
\<close>

datatype period_label = Month nat | Year nat

datatype date_label = ShortMonthYear int int | FullYear int

record ProjectionRow =
  period :: period_label
  date :: date_label
  revenue :: jsnum
  expenses :: jsnum
  profit :: jsnum
  cashBalance :: jsnum

text \<open>
  \<open>new Date(y, mo, 1)\<close> as a calendar year and month index: months beyond the year
  carry into the year, and a year argument from 0 to 99 means 1900 + y.
\<close>

definition new_Date :: "int \<Rightarrow> int \<Rightarrow> int \<times> int" where
  "new_Date y mo =
    (let y' = (if 0 \<le> y \<and> y \<le> 99 then 1900 + y else y)
     in (y' + mo div 12, mo mod 12))"

text \<open>The variables that the loop of \<open>generateData\<close> updates.\<close>

record gen_state =
  currentCash :: jsnum
  yearlyRevenueAccum :: jsnum
  yearlyExpenseAccum :: jsnum
  data :: "ProjectionRow list"

definition gen_init :: "FinancialMetrics \<Rightarrow> gen_state" where
  "gen_init metrics =
    \<lparr> currentCash = jneg (totalInvestment metrics),
      yearlyRevenueAccum = Fin 0,
      yearlyExpenseAccum = Fin 0,
      data = [] \<rparr>"

text \<open>One iteration of the loop, at month index \<open>i\<close>.\<close>

definition gen_step :: "FinancialMetrics \<Rightarrow> ProjectionConfig \<Rightarrow> gen_state \<Rightarrow> nat \<Rightarrow> gen_state" where
  "gen_step metrics cfg st i =
    (let monthlyRevenueBase = jdiv (annualRevenue metrics) (Fin 12);
         monthlyExpenseBase = jdiv (annualExpenses metrics) (Fin 12);
         totalMonths = durationYears cfg * 12;
         isYearlyView = (interval cfg = yearly);
         currentDate = new_Date (startYear cfg) (startMonth cfg + int i);
         currentYearIndex = i div 12;
         growthFactor =
           jpow (jadd (Fin 1) (jdiv (Fin (growthRate cfg)) (Fin 100))) currentYearIndex;
         rev = jmul monthlyRevenueBase growthFactor;
         expense =
           jmul monthlyExpenseBase
             (jadd (Fin 1)
               (jmul (jdiv (jmul (Fin (growthRate cfg)) (Fin (1 / 2))) (Fin 100))
                 (Fin (real currentYearIndex))));
         prof = jsub rev expense;
         cash = jadd (currentCash st) prof
     in if isYearlyView
        then (let revAccum = jadd (yearlyRevenueAccum st) rev;
                  expAccum = jadd (yearlyExpenseAccum st) expense
              in if (i + 1) mod 12 = 0 \<or> int i = int totalMonths - 1
                 then \<lparr> currentCash = cash,
                        yearlyRevenueAccum = Fin 0,
                        yearlyExpenseAccum = Fin 0,
                        data = data st @
                          [\<lparr> period = Year (currentYearIndex + 1),
                             date = FullYear (fst currentDate),
                             revenue = revAccum,
                             expenses = expAccum,
                             profit = jsub revAccum expAccum,
                             cashBalance = cash \<rparr>] \<rparr>
                 else \<lparr> currentCash = cash,
                        yearlyRevenueAccum = revAccum,
                        yearlyExpenseAccum = expAccum,
                        data = data st \<rparr>)
        else \<lparr> currentCash = cash,
               yearlyRevenueAccum = yearlyRevenueAccum st,
               yearlyExpenseAccum = yearlyExpenseAccum st,
               data = data st @
                 [\<lparr> period = Month (i + 1),
                    date = ShortMonthYear (fst currentDate) (snd currentDate),
                    revenue = rev,
                    expenses = expense,
                    profit = prof,
                    cashBalance = cash \<rparr>] \<rparr>)"

text \<open>The loop runs the month indices \<open>0, \<dots>, totalMonths - 1\<close> in order.\<close>

definition gen_loop :: "FinancialMetrics \<Rightarrow> ProjectionConfig \<Rightarrow> nat \<Rightarrow> gen_state" where
  "gen_loop metrics cfg n = foldl (gen_step metrics cfg) (gen_init metrics) [0..<n]"

definition generateData :: "FinancialMetrics \<Rightarrow> ProjectionConfig \<Rightarrow> ProjectionRow list" where
  "generateData metrics cfg = data (gen_loop metrics cfg (durationYears cfg * 12))"

text \<open>The initial value of the \<open>metrics\<close> state of \<open>App\<close>.\<close>

definition initial_metrics :: FinancialMetrics where
  "initial_metrics =
    \<lparr> totalInvestment = Fin 0, annualRevenue = Fin 0, annualExpenses = Fin 0,
      netProfit = Fin 0, monthlyNet = Fin 0, roiYears = Fin 0, breakEvenMonths = Fin 0,
      margin = Fin 0, contractTerm = Fin 0, requiredDailyCustomers = Fin 0,
      requiredDailyCustomersForMargin = Fin 0 \<rparr>"


section \<open>Values of one month and of one year\<close>

text \<open>
  What one iteration of the loop computes, as functions of the month index, and the rows
  that the loop pushes; the lemmas below show that the loop produces exactly these.
\<close>

definition jsum :: "jsnum list \<Rightarrow> jsnum" where
  "jsum xs = foldl jadd (Fin 0) xs"

definition month_revenue :: "FinancialMetrics \<Rightarrow> ProjectionConfig \<Rightarrow> nat \<Rightarrow> jsnum" where
  "month_revenue metrics cfg i =
    jmul (jdiv (annualRevenue metrics) (Fin 12))
      (jpow (jadd (Fin 1) (jdiv (Fin (growthRate cfg)) (Fin 100))) (i div 12))"

definition month_expense :: "FinancialMetrics \<Rightarrow> ProjectionConfig \<Rightarrow> nat \<Rightarrow> jsnum" where
  "month_expense metrics cfg i =
    jmul (jdiv (annualExpenses metrics) (Fin 12))
      (jadd (Fin 1)
        (jmul (jdiv (jmul (Fin (growthRate cfg)) (Fin (1 / 2))) (Fin 100))
          (Fin (real (i div 12)))))"

definition month_profit :: "FinancialMetrics \<Rightarrow> ProjectionConfig \<Rightarrow> nat \<Rightarrow> jsnum" where
  "month_profit metrics cfg i = jsub (month_revenue metrics cfg i) (month_expense metrics cfg i)"

definition cash_after :: "FinancialMetrics \<Rightarrow> ProjectionConfig \<Rightarrow> nat \<Rightarrow> jsnum" where
  "cash_after metrics cfg n =
    foldl (\<lambda>c i. jadd c (month_profit metrics cfg i)) (jneg (totalInvestment metrics)) [0..<n]"

definition month_row :: "FinancialMetrics \<Rightarrow> ProjectionConfig \<Rightarrow> nat \<Rightarrow> ProjectionRow" where
  "month_row metrics cfg i =
    \<lparr> period = Month (i + 1),
      date = ShortMonthYear (fst (new_Date (startYear cfg) (startMonth cfg + int i)))
               (snd (new_Date (startYear cfg) (startMonth cfg + int i))),
      revenue = month_revenue metrics cfg i,
      expenses = month_expense metrics cfg i,
      profit = month_profit metrics cfg i,
      cashBalance = cash_after metrics cfg (Suc i) \<rparr>"

definition year_row :: "FinancialMetrics \<Rightarrow> ProjectionConfig \<Rightarrow> nat \<Rightarrow> ProjectionRow" where
  "year_row metrics cfg k =
    \<lparr> period = Year (Suc k),
      date = FullYear (fst (new_Date (startYear cfg) (startMonth cfg + int (12 * k + 11)))),
      revenue = jsum (map (month_revenue metrics cfg) [12 * k..<12 * k + 12]),
      expenses = jsum (map (month_expense metrics cfg) [12 * k..<12 * k + 12]),
      profit = jsub (jsum (map (month_revenue metrics cfg) [12 * k..<12 * k + 12]))
                 (jsum (map (month_expense metrics cfg) [12 * k..<12 * k + 12])),
      cashBalance = cash_after metrics cfg (12 * k + 12) \<rparr>"

text \<open>
  The position of a row in time: the number of its \<open>period\<close> label, and the calendar
  month of its date counted from year 0 (a row of the yearly view carries a year only).
\<close>

fun period_index :: "period_label \<Rightarrow> nat" where
  "period_index (Month n) = n"
| "period_index (Year n) = n"

fun date_key :: "date_label \<Rightarrow> int" where
  "date_key (ShortMonthYear y mo) = 12 * y + mo"
| "date_key (FullYear y) = 12 * y"


section \<open>Scenarios\<close>

text \<open>
  Form states used below: the second scenario of the specification (lower fixed costs)
  and a shop that is open on no day.
\<close>

definition profitable_inputs :: BusinessInputs where
  "profitable_inputs =
     default_inputs\<lparr> rentMonthly := 5000, salariesMonthly := 3000, miscMonthly := 2000 \<rparr>"

definition closed_shop_inputs :: BusinessInputs where
  "closed_shop_inputs = default_inputs\<lparr> daysOpen := 0 \<rparr>"

text \<open>
  The initial state of \<open>ReportGenerator\<close> (one year, monthly, 5 percent growth) with a
  start date in January 2025, and a three-year projection at 10 percent growth.
\<close>

definition default_config :: ProjectionConfig where
  "default_config =
    \<lparr> startYear = 2025, startMonth = 0, durationYears = 1, interval = monthly, growthRate = 5 \<rparr>"

definition growth_config :: ProjectionConfig where
  "growth_config =
    \<lparr> startYear = 2025, startMonth = 0, durationYears = 3, interval = monthly, growthRate = 10 \<rparr>"


section \<open>Binary64 numbers\<close>

text \<open>
  A double is a finite value, the negative zero, an infinity, or NaN.  \<open>F x\<close> is the
  double of value \<open>x\<close>, \<open>F 0\<close> the positive zero.  The operations below round every
  result, so they yield doubles on doubles; the constants of the scenarios are written
  as the exact values of the doubles they denote.
\<close>

datatype f64 = F real | NegZero | PosInf | NegInf | NotANumber

text \<open>
  Rounding of a real to the nearest integer, a tie going to the even one.
\<close>

definition rne :: "real \<Rightarrow> int" where
  "rne t =
    (let f = \<lfloor>t\<rfloor>; r = t - of_int f
     in if r < 1 / 2 then f else if 1 / 2 < r then f + 1 else if even f then f else f + 1)"

text \<open>
  The exponent of the binade of a real, \<open>\<lfloor>log 2 \<bar>x\<bar>\<rfloor>\<close>, not below the exponent
  \<open>-1022\<close> of the subnormal range; the spacing of the doubles in that binade (52 bits of
  fraction); and the bound \<open>2 ^ 1024\<close> at which a rounded value overflows.
\<close>

definition expo :: "real \<Rightarrow> int" where
  "expo x = max (- 1022) (bitlen \<lfloor>\<bar>x\<bar> * 2 ^ 1075\<rfloor> - 1076)"

definition ulp :: "real \<Rightarrow> real" where
  "ulp x = 2 powi (expo x - 52)"

definition overflow_bound :: real where
  "overflow_bound = 2 ^ 1024"

text \<open>
  The double nearest to a real, ties to even: an infinity on overflow, a zero with the
  sign of the real on underflow.  A real is representable when it is a finite multiple
  of the spacing of its binade.
\<close>

definition round64 :: "real \<Rightarrow> f64" where
  "round64 x =
    (let u = 2 powi (expo x - 52); y = of_int (rne (x / u)) * u
     in if overflow_bound \<le> \<bar>y\<bar> then (if 0 < x then PosInf else NegInf)
        else if y = 0 then (if x < 0 then NegZero else F 0)
        else F y)"

definition representable :: "real \<Rightarrow> bool" where
  "representable d = (d / 2 powi (expo d - 52) \<in> \<int> \<and> \<bar>d\<bar> < overflow_bound)"

definition f64_le :: "f64 \<Rightarrow> real \<Rightarrow> bool" where
  "f64_le a d = (a = NegInf \<or> a = NegZero \<and> 0 \<le> d \<or> (\<exists>y. a = F y \<and> y \<le> d))"

definition f64_ge :: "f64 \<Rightarrow> real \<Rightarrow> bool" where
  "f64_ge a d = (a = PosInf \<or> a = NegZero \<and> d \<le> 0 \<or> (\<exists>y. a = F y \<and> d \<le> y))"

text \<open>
  The arithmetic operators of the language on doubles, with the special cases of IEEE
  754: NaN propagates; \<open>\<infinity> - \<infinity>\<close>, \<open>0 \<times> \<infinity>\<close>, \<open>0 / 0\<close> and \<open>\<infinity> / \<infinity>\<close> are NaN; a
  nonzero value divided by a zero is an infinity whose sign is the product of the signs;
  an exact zero sum is \<open>+0\<close> unless both operands are \<open>-0\<close>; a zero product or quotient
  carries the product of the signs.
\<close>

fun fval :: "f64 \<Rightarrow> real" where
  "fval (F x) = x"
| "fval NegZero = 0"
| "fval PosInf = 0"
| "fval NegInf = 0"
| "fval NotANumber = 0"

fun sign_neg :: "f64 \<Rightarrow> bool" where
  "sign_neg (F x) = (x < 0)"
| "sign_neg NegZero = True"
| "sign_neg PosInf = False"
| "sign_neg NegInf = True"
| "sign_neg NotANumber = False"

definition is_zero :: "f64 \<Rightarrow> bool" where
  "is_zero a = (a = F 0 \<or> a = NegZero)"

definition is_inf :: "f64 \<Rightarrow> bool" where
  "is_inf a = (a = PosInf \<or> a = NegInf)"

definition signed_zero :: "bool \<Rightarrow> f64" where
  "signed_zero neg = (if neg then NegZero else F 0)"

definition signed_infinity :: "bool \<Rightarrow> f64" where
  "signed_infinity neg = (if neg then NegInf else PosInf)"

fun fneg :: "f64 \<Rightarrow> f64" where
  "fneg (F x) = (if x = 0 then NegZero else F (- x))"
| "fneg NegZero = F 0"
| "fneg PosInf = NegInf"
| "fneg NegInf = PosInf"
| "fneg NotANumber = NotANumber"

definition fadd :: "f64 \<Rightarrow> f64 \<Rightarrow> f64" where
  "fadd a b =
    (if a = NotANumber \<or> b = NotANumber then NotANumber
     else if a = PosInf then (if b = NegInf then NotANumber else PosInf)
     else if a = NegInf then (if b = PosInf then NotANumber else NegInf)
     else if is_inf b then b
     else if fval a + fval b = 0 then (if a = NegZero \<and> b = NegZero then NegZero else F 0)
     else round64 (fval a + fval b))"

definition fsub :: "f64 \<Rightarrow> f64 \<Rightarrow> f64" where
  "fsub a b = fadd a (fneg b)"

definition fmul :: "f64 \<Rightarrow> f64 \<Rightarrow> f64" where
  "fmul a b =
    (if a = NotANumber \<or> b = NotANumber then NotANumber
     else if is_inf a \<or> is_inf b
     then (if is_zero a \<or> is_zero b then NotANumber
           else signed_infinity (sign_neg a \<noteq> sign_neg b))
     else if fval a * fval b = 0 then signed_zero (sign_neg a \<noteq> sign_neg b)
     else round64 (fval a * fval b))"

definition fdiv :: "f64 \<Rightarrow> f64 \<Rightarrow> f64" where
  "fdiv a b =
    (if a = NotANumber \<or> b = NotANumber then NotANumber
     else if is_inf a
     then (if is_inf b then NotANumber else signed_infinity (sign_neg a \<noteq> sign_neg b))
     else if is_inf b then signed_zero (sign_neg a \<noteq> sign_neg b)
     else if is_zero b
     then (if is_zero a then NotANumber else signed_infinity (sign_neg a \<noteq> sign_neg b))
     else if is_zero a then signed_zero (sign_neg a \<noteq> sign_neg b)
     else round64 (fval a / fval b))"

text \<open>
  The comparisons \<open><\<close>, \<open>>\<close> and \<open>>=\<close>: false when an operand is NaN; the two zeros are
  equal.  Two predicates used in the proofs: a value that is a zero or NaN, and a value
  that is not below zero or is NaN.
\<close>

definition fless :: "f64 \<Rightarrow> f64 \<Rightarrow> bool" where
  "fless a b =
    (if a = NotANumber \<or> b = NotANumber then False
     else if a = PosInf \<or> b = NegInf then False
     else if a = NegInf \<or> b = PosInf then True
     else fval a < fval b)"

definition fgt :: "f64 \<Rightarrow> f64 \<Rightarrow> bool" where
  "fgt a b = fless b a"

definition fge :: "f64 \<Rightarrow> f64 \<Rightarrow> bool" where
  "fge a b = (if a = NotANumber \<or> b = NotANumber then False else if fless a b then False else True)"

definition zero_or_nan :: "f64 \<Rightarrow> bool" where
  "zero_or_nan a = (is_zero a \<or> a = NotANumber)"

definition nonneg_or_nan :: "f64 \<Rightarrow> bool" where
  "nonneg_or_nan a = (fge a (F 0) \<or> a = NotANumber)"


section \<open>The metrics effect in binary64\<close>

text \<open>
  The form state and the metrics with doubles as fields.  \<open>Number(v)\<close> of a state
  variable that holds a number is that number.
\<close>

record BusinessInputs64 =
  franchiseFee64 :: f64
  buildOut64 :: f64
  equipment64 :: f64
  workingCapital64 :: f64
  contractTerm_input64 :: f64
  avgTicket64 :: f64
  dailyCust64 :: f64
  daysOpen64 :: f64
  cogsPercent64 :: f64
  laborPercent64 :: f64
  royaltyPercent64 :: f64
  marketingPercent64 :: f64
  rentMonthly64 :: f64
  salariesMonthly64 :: f64
  miscMonthly64 :: f64

record FinancialMetrics64 =
  totalInvestment64 :: f64
  annualRevenue64 :: f64
  annualExpenses64 :: f64
  netProfit64 :: f64
  monthlyNet64 :: f64
  roiYears64 :: f64
  breakEvenMonths64 :: f64
  margin64 :: f64
  contractTerm64 :: f64
  requiredDailyCustomers64 :: f64
  requiredDailyCustomersForMargin64 :: f64

text \<open>
  The body of the metrics effect in double arithmetic, line by line.  The literal
  \<open>0.10\<close> is the double nearest to one tenth.  Three of its local values are named, as
  the properties below speak of them: \<open>monthlyFixedCosts\<close>, \<open>variableCostPercent\<close> and
  \<open>denominator\<close>.
\<close>

definition monthlyFixedCosts64 :: "BusinessInputs64 \<Rightarrow> f64" where
  "monthlyFixedCosts64 inp =
    fadd (fadd (rentMonthly64 inp) (salariesMonthly64 inp)) (miscMonthly64 inp)"

definition variableCostPercent64 :: "BusinessInputs64 \<Rightarrow> f64" where
  "variableCostPercent64 inp =
    fadd (fadd (fadd (cogsPercent64 inp) (laborPercent64 inp)) (royaltyPercent64 inp))
      (marketingPercent64 inp)"

definition denominator64 :: "BusinessInputs64 \<Rightarrow> f64" where
  "denominator64 inp =
    (let targetNetMargin = round64 (1 / 10);
         variableRatio = fdiv (variableCostPercent64 inp) (F 100)
     in fsub (fsub (F 1) variableRatio) targetNetMargin)"

definition derive64 :: "BusinessInputs64 \<Rightarrow> FinancialMetrics64" where
  "derive64 inp =
    (let totalInv = fadd (fadd (fadd (franchiseFee64 inp) (buildOut64 inp)) (equipment64 inp))
                      (workingCapital64 inp);
         annualRev = fmul (fmul (avgTicket64 inp) (dailyCust64 inp)) (daysOpen64 inp);
         cogs = fmul annualRev (fdiv (cogsPercent64 inp) (F 100));
         labor = fmul annualRev (fdiv (laborPercent64 inp) (F 100));
         royalties = fmul annualRev (fdiv (royaltyPercent64 inp) (F 100));
         marketing = fmul annualRev (fdiv (marketingPercent64 inp) (F 100));
         rent = fmul (rentMonthly64 inp) (F 12);
         salaries = fmul (salariesMonthly64 inp) (F 12);
         misc = fmul (miscMonthly64 inp) (F 12);
         totalAnnualExpenses =
           fadd (fadd (fadd (fadd (fadd (fadd cogs labor) royalties) marketing) rent) salaries) misc;
         annualNetProfit = fsub annualRev totalAnnualExpenses;
         monthlyNetProfit = fdiv annualNetProfit (F 12);
         profitable = fgt annualNetProfit (F 0);
         paybackYears = (if profitable then fdiv totalInv annualNetProfit else F 0);
         breakEvenM = (if profitable then fdiv totalInv monthlyNetProfit else F 0);
         targetMonthlyNetROI = fmul totalInv (round64 (1 / 10));
         requiredMonthlyContributionROI = fadd targetMonthlyNetROI (monthlyFixedCosts64 inp);
         marginPerCustomer =
           fmul (avgTicket64 inp) (fsub (F 1) (fdiv (variableCostPercent64 inp) (F 100)));
         reqDailyCustomers =
           (if fgt marginPerCustomer (F 0) \<and> fgt (daysOpen64 inp) (F 0)
            then (let requiredMonthlyCustomers = fdiv requiredMonthlyContributionROI marginPerCustomer
                  in fdiv requiredMonthlyCustomers (fdiv (daysOpen64 inp) (F 12)))
            else F 0);
         reqDailyCustomersForMargin =
           (if fgt (denominator64 inp) (F 0)
            then (let annualFixedCosts = fmul (monthlyFixedCosts64 inp) (F 12);
                      requiredAnnualRevenueForMargin = fdiv annualFixedCosts (denominator64 inp)
                  in fdiv (fdiv requiredAnnualRevenueForMargin (daysOpen64 inp)) (avgTicket64 inp))
            else F 0)
     in \<lparr> totalInvestment64 = totalInv,
          annualRevenue64 = annualRev,
          annualExpenses64 = totalAnnualExpenses,
          netProfit64 = annualNetProfit,
          monthlyNet64 = monthlyNetProfit,
          roiYears64 = paybackYears,
          breakEvenMonths64 = breakEvenM,
          margin64 = (if fgt annualRev (F 0)
                      then fmul (fdiv annualNetProfit annualRev) (F 100) else F 0),
          contractTerm64 = contractTerm_input64 inp,
          requiredDailyCustomers64 = reqDailyCustomers,
          requiredDailyCustomersForMargin64 = reqDailyCustomersForMargin \<rparr>)"

definition default_inputs64 :: BusinessInputs64 where
  "default_inputs64 =
    \<lparr> franchiseFee64 = F 500000, buildOut64 = F 300000, equipment64 = F 75000,
      workingCapital64 = F 50000, contractTerm_input64 = F 10, avgTicket64 = F 100,
      dailyCust64 = F 50, daysOpen64 = F 320, cogsPercent64 = F 30, laborPercent64 = F 25,
      royaltyPercent64 = F 6, marketingPercent64 = F 2, rentMonthly64 = F 50000,
      salariesMonthly64 = F 30000, miscMonthly64 = F 20000 \<rparr>"


section \<open>The projection generator in binary64\<close>

text \<open>
  \<open>generateData\<close> in double arithmetic.  The configuration is the one of the first model;
  its growth rate \<open>g\<close> enters the computation as the double \<open>F g\<close>.
\<close>

record ProjectionRow64 =
  period64 :: period_label
  date64 :: date_label
  revenue64 :: f64
  expenses64 :: f64
  profit64 :: f64
  cashBalance64 :: f64

text \<open>
  \<open>Math.pow(b, k)\<close> at a year index \<open>k\<close>.  The language fixes the result 1 at exponent 0
  and leaves the other results to the implementation, which is a parameter \<open>impl\<close> of
  the model.  \<open>pow_repeated\<close>, repeated multiplication from 1, is one implementation;
  the closed statements below use it where its result is the exact power: at the
  exponents 0 and 1, and at the base 1.
\<close>

definition Math_pow :: "(f64 \<Rightarrow> nat \<Rightarrow> f64) \<Rightarrow> f64 \<Rightarrow> nat \<Rightarrow> f64" where
  "Math_pow impl b k = (if k = 0 then F 1 else impl b k)"

definition pow_repeated :: "f64 \<Rightarrow> nat \<Rightarrow> f64" where
  "pow_repeated b k = foldl fmul (F 1) (replicate k b)"

text \<open>
  The variables of the loop, their initial values, one iteration, and the loop.
\<close>

record gen_state64 =
  currentCash64 :: f64
  yearlyRevenueAccum64 :: f64
  yearlyExpenseAccum64 :: f64
  data64 :: "ProjectionRow64 list"

definition gen_init64 :: "FinancialMetrics64 \<Rightarrow> gen_state64" where
  "gen_init64 metrics =
    \<lparr> currentCash64 = fneg (totalInvestment64 metrics),
      yearlyRevenueAccum64 = F 0,
      yearlyExpenseAccum64 = F 0,
      data64 = [] \<rparr>"

definition gen_step64 ::
  "(f64 \<Rightarrow> nat \<Rightarrow> f64) \<Rightarrow> FinancialMetrics64 \<Rightarrow> ProjectionConfig \<Rightarrow> gen_state64 \<Rightarrow> nat
    \<Rightarrow> gen_state64" where
  "gen_step64 impl metrics cfg st i =
    (let monthlyRevenueBase = fdiv (annualRevenue64 metrics) (F 12);
         monthlyExpenseBase = fdiv (annualExpenses64 metrics) (F 12);
         totalMonths = durationYears cfg * 12;
         isYearlyView = (interval cfg = yearly);
         currentDate = new_Date (startYear cfg) (startMonth cfg + int i);
         currentYearIndex = i div 12;
         growthFactor =
           Math_pow impl (fadd (F 1) (fdiv (F (growthRate cfg)) (F 100))) currentYearIndex;
         rev = fmul monthlyRevenueBase growthFactor;
         expense =
           fmul monthlyExpenseBase
             (fadd (F 1)
               (fmul (fdiv (fmul (F (growthRate cfg)) (F (1 / 2))) (F 100))
                 (F (real currentYearIndex))));
         prof = fsub rev expense;
         cash = fadd (currentCash64 st) prof
     in if isYearlyView
        then (let revAccum = fadd (yearlyRevenueAccum64 st) rev;
                  expAccum = fadd (yearlyExpenseAccum64 st) expense
              in if (i + 1) mod 12 = 0 \<or> int i = int totalMonths - 1
                 then \<lparr> currentCash64 = cash,
                        yearlyRevenueAccum64 = F 0,
                        yearlyExpenseAccum64 = F 0,
                        data64 = data64 st @
                          [\<lparr> period64 = Year (currentYearIndex + 1),
                             date64 = FullYear (fst currentDate),
                             revenue64 = revAccum,
                             expenses64 = expAccum,
                             profit64 = fsub revAccum expAccum,
                             cashBalance64 = cash \<rparr>] \<rparr>
                 else \<lparr> currentCash64 = cash,
                        yearlyRevenueAccum64 = revAccum,
                        yearlyExpenseAccum64 = expAccum,
                        data64 = data64 st \<rparr>)
        else \<lparr> currentCash64 = cash,
               yearlyRevenueAccum64 = yearlyRevenueAccum64 st,
               yearlyExpenseAccum64 = yearlyExpenseAccum64 st,
               data64 = data64 st @
                 [\<lparr> period64 = Month (i + 1),
                    date64 = ShortMonthYear (fst currentDate) (snd currentDate),
                    revenue64 = rev,
                    expenses64 = expense,
                    profit64 = prof,
                    cashBalance64 = cash \<rparr>] \<rparr>)"

definition gen_loop64 ::
  "(f64 \<Rightarrow> nat \<Rightarrow> f64) \<Rightarrow> FinancialMetrics64 \<Rightarrow> ProjectionConfig \<Rightarrow> nat \<Rightarrow> gen_state64" where
  "gen_loop64 impl metrics cfg n = foldl (gen_step64 impl metrics cfg) (gen_init64 metrics) [0..<n]"

definition generateData64 ::
  "(f64 \<Rightarrow> nat \<Rightarrow> f64) \<Rightarrow> FinancialMetrics64 \<Rightarrow> ProjectionConfig \<Rightarrow> ProjectionRow64 list" where
  "generateData64 impl metrics cfg = data64 (gen_loop64 impl metrics cfg (durationYears cfg * 12))"

text \<open>
  What one iteration computes, as functions of the month index, and the rows that the
  loop pushes.
\<close>

definition jsum64 :: "f64 list \<Rightarrow> f64" where
  "jsum64 xs = foldl fadd (F 0) xs"

definition month_revenue64 ::
  "(f64 \<Rightarrow> nat \<Rightarrow> f64) \<Rightarrow> FinancialMetrics64 \<Rightarrow> ProjectionConfig \<Rightarrow> nat \<Rightarrow> f64" where
  "month_revenue64 impl metrics cfg i =
    fmul (fdiv (annualRevenue64 metrics) (F 12))
      (Math_pow impl (fadd (F 1) (fdiv (F (growthRate cfg)) (F 100))) (i div 12))"

definition month_expense64 :: "FinancialMetrics64 \<Rightarrow> ProjectionConfig \<Rightarrow> nat \<Rightarrow> f64" where
  "month_expense64 metrics cfg i =
    fmul (fdiv (annualExpenses64 metrics) (F 12))
      (fadd (F 1)
        (fmul (fdiv (fmul (F (growthRate cfg)) (F (1 / 2))) (F 100))
          (F (real (i div 12)))))"

definition month_profit64 ::
  "(f64 \<Rightarrow> nat \<Rightarrow> f64) \<Rightarrow> FinancialMetrics64 \<Rightarrow> ProjectionConfig \<Rightarrow> nat \<Rightarrow> f64" where
  "month_profit64 impl metrics cfg i =
    fsub (month_revenue64 impl metrics cfg i) (month_expense64 metrics cfg i)"

definition cash_after64 ::
  "(f64 \<Rightarrow> nat \<Rightarrow> f64) \<Rightarrow> FinancialMetrics64 \<Rightarrow> ProjectionConfig \<Rightarrow> nat \<Rightarrow> f64" where
  "cash_after64 impl metrics cfg n =
    foldl (\<lambda>c i. fadd c (month_profit64 impl metrics cfg i))
      (fneg (totalInvestment64 metrics)) [0..<n]"

definition month_row64 ::
  "(f64 \<Rightarrow> nat \<Rightarrow> f64) \<Rightarrow> FinancialMetrics64 \<Rightarrow> ProjectionConfig \<Rightarrow> nat \<Rightarrow> ProjectionRow64" where
  "month_row64 impl metrics cfg i =
    \<lparr> period64 = Month (i + 1),
      date64 = ShortMonthYear (fst (new_Date (startYear cfg) (startMonth cfg + int i)))
               (snd (new_Date (startYear cfg) (startMonth cfg + int i))),
      revenue64 = month_revenue64 impl metrics cfg i,
      expenses64 = month_expense64 metrics cfg i,
      profit64 = month_profit64 impl metrics cfg i,
      cashBalance64 = cash_after64 impl metrics cfg (Suc i) \<rparr>"

definition year_row64 ::
  "(f64 \<Rightarrow> nat \<Rightarrow> f64) \<Rightarrow> FinancialMetrics64 \<Rightarrow> ProjectionConfig \<Rightarrow> nat \<Rightarrow> ProjectionRow64" where
  "year_row64 impl metrics cfg k =
    \<lparr> period64 = Year (Suc k),
      date64 = FullYear (fst (new_Date (startYear cfg) (startMonth cfg + int (12 * k + 11)))),
      revenue64 = jsum64 (map (month_revenue64 impl metrics cfg) [12 * k..<12 * k + 12]),
      expenses64 = jsum64 (map (month_expense64 metrics cfg) [12 * k..<12 * k + 12]),
      profit64 = fsub (jsum64 (map (month_revenue64 impl metrics cfg) [12 * k..<12 * k + 12]))
                 (jsum64 (map (month_expense64 metrics cfg) [12 * k..<12 * k + 12])),
      cashBalance64 = cash_after64 impl metrics cfg (12 * k + 12) \<rparr>"


section \<open>Scenarios in binary64\<close>

text \<open>
  Form states in doubles: the shop that is open on no day; a shop without customers
  whose rent is negative; a shop with 93 percent variable costs; and a shop whose four
  percentages are the doubles of 30.1, 25.2, 23.4 and 11.3, whose sum as the code
  computes it is the double just below 90.
\<close>

definition closed_shop_inputs64 :: BusinessInputs64 where
  "closed_shop_inputs64 = default_inputs64\<lparr> daysOpen64 := F 0 \<rparr>"

definition subsidised_inputs64 :: BusinessInputs64 where
  "subsidised_inputs64 =
    default_inputs64\<lparr> dailyCust64 := F 0, rentMonthly64 := F (- 50000),
      salariesMonthly64 := F 0, miscMonthly64 := F 0 \<rparr>"

definition high_cost_inputs64 :: BusinessInputs64 where
  "high_cost_inputs64 = default_inputs64\<lparr> cogsPercent64 := F 60 \<rparr>"

definition near_ninety_inputs64 :: BusinessInputs64 where
  "near_ninety_inputs64 =
    default_inputs64
      \<lparr> cogsPercent64 := F (4236198399495373 / 140737488355328),
        laborPercent64 := F (7093169413108531 / 281474976710656),
        royaltyPercent64 := F (3293257227514675 / 140737488355328),
        marketingPercent64 := F (3180667236830413 / 281474976710656) \<rparr>"

text \<open>
  Metrics and a configuration for the projection: the initial metrics of the
  application; the initial configuration with a growth rate of 0; metrics with a total
  investment of \<open>2 ^ 53\<close> and annual expenses of 12, where adding a monthly profit of
  \<open>-1\<close> to the balance is absorbed by rounding; and metrics so large that the first
  balance overflows.
\<close>

definition initial_metrics64 :: FinancialMetrics64 where
  "initial_metrics64 =
    \<lparr> totalInvestment64 = F 0, annualRevenue64 = F 0, annualExpenses64 = F 0,
      netProfit64 = F 0, monthlyNet64 = F 0, roiYears64 = F 0, breakEvenMonths64 = F 0,
      margin64 = F 0, contractTerm64 = F 0, requiredDailyCustomers64 = F 0,
      requiredDailyCustomersForMargin64 = F 0 \<rparr>"

definition flat_config :: ProjectionConfig where
  "flat_config = default_config\<lparr> growthRate := 0 \<rparr>"

definition rounding_metrics64 :: FinancialMetrics64 where
  "rounding_metrics64 =
    initial_metrics64\<lparr> totalInvestment64 := F 9007199254740992, annualExpenses64 := F 12 \<rparr>"

definition two_1020 :: real where
  "two_1020 = 2 ^ 1020"

definition overflow_metrics64 :: FinancialMetrics64 where
  "overflow_metrics64 =
    initial_metrics64\<lparr> totalInvestment64 := F (15 * two_1020),
      annualExpenses64 := F (12 * two_1020) \<rparr>"


section \<open>The loop, iteration by iteration\<close>

lemma flush_iff:
  "((i + 1) mod 12 = 0 \<or> int i = int (d * 12) - 1) = (Suc i mod 12 = 0)"
proof -
  have "(i + 1) mod 12 = 0" if "int i = int (d * 12) - 1"
  proof -
    from that have "i + 1 = d * 12" by linarith
    then show ?thesis by simp
  qed
  then show ?thesis by auto
qed

lemma year_end_mod: "Suc n mod 12 = 0 \<Longrightarrow> n mod 12 = 11"
  by (simp add: mod_Suc split: if_splits)

lemma year_end_div: "Suc n mod 12 = 0 \<Longrightarrow> Suc n div 12 = Suc (n div 12)"
  by (simp add: div_Suc)

lemma year_end_last: "Suc n mod 12 = 0 \<Longrightarrow> 12 * (n div 12) + 11 = n"
  using div_mult_mod_eq [of n 12] by (simp add: year_end_mod)

lemma year_mid_div: "Suc n mod 12 \<noteq> 0 \<Longrightarrow> Suc n div 12 = n div 12"
  by (simp add: div_Suc)

lemma gen_step_unfold:
  "gen_step metrics cfg st i =
    (if interval cfg = yearly
     then (if Suc i mod 12 = 0
       then \<lparr> currentCash = jadd (currentCash st) (month_profit metrics cfg i),
            yearlyRevenueAccum = Fin 0, yearlyExpenseAccum = Fin 0,
            data = data st @
              [\<lparr> period = Year (i div 12 + 1),
                 date = FullYear (fst (new_Date (startYear cfg) (startMonth cfg + int i))),
                 revenue = jadd (yearlyRevenueAccum st) (month_revenue metrics cfg i),
                 expenses = jadd (yearlyExpenseAccum st) (month_expense metrics cfg i),
                 profit = jsub (jadd (yearlyRevenueAccum st) (month_revenue metrics cfg i))
                            (jadd (yearlyExpenseAccum st) (month_expense metrics cfg i)),
                 cashBalance = jadd (currentCash st) (month_profit metrics cfg i) \<rparr>] \<rparr>
       else \<lparr> currentCash = jadd (currentCash st) (month_profit metrics cfg i),
            yearlyRevenueAccum = jadd (yearlyRevenueAccum st) (month_revenue metrics cfg i),
            yearlyExpenseAccum = jadd (yearlyExpenseAccum st) (month_expense metrics cfg i),
            data = data st \<rparr>)
     else \<lparr> currentCash = jadd (currentCash st) (month_profit metrics cfg i),
            yearlyRevenueAccum = yearlyRevenueAccum st,
            yearlyExpenseAccum = yearlyExpenseAccum st,
            data = data st @
              [\<lparr> period = Month (i + 1),
                 date = ShortMonthYear (fst (new_Date (startYear cfg) (startMonth cfg + int i)))
                          (snd (new_Date (startYear cfg) (startMonth cfg + int i))),
                 revenue = month_revenue metrics cfg i,
                 expenses = month_expense metrics cfg i,
                 profit = month_profit metrics cfg i,
                 cashBalance = jadd (currentCash st) (month_profit metrics cfg i) \<rparr>] \<rparr>)"
  unfolding gen_step_def Let_def flush_iff month_profit_def month_revenue_def month_expense_def
  by (rule refl)

lemma gen_loop_0: "gen_loop metrics cfg 0 = gen_init metrics"
  by (simp add: gen_loop_def)

lemma gen_loop_Suc:
  "gen_loop metrics cfg (Suc n) = gen_step metrics cfg (gen_loop metrics cfg n) n"
  by (simp add: gen_loop_def)

lemma cash_after_0: "cash_after metrics cfg 0 = jneg (totalInvestment metrics)"
  by (simp add: cash_after_def)

lemma cash_after_Suc:
  "cash_after metrics cfg (Suc n) = jadd (cash_after metrics cfg n) (month_profit metrics cfg n)"
  by (simp add: cash_after_def)

lemma jsum_Nil: "jsum [] = Fin 0"
  by (simp add: jsum_def)

lemma jsum_snoc: "jsum (xs @ [x]) = jadd (jsum xs) x"
  by (simp add: jsum_def)

lemma gen_loop_monthly:
  assumes "interval cfg = monthly"
  shows "gen_loop metrics cfg n =
     \<lparr> currentCash = cash_after metrics cfg n, yearlyRevenueAccum = Fin 0,
       yearlyExpenseAccum = Fin 0, data = map (month_row metrics cfg) [0..<n] \<rparr>"
proof (induction n)
  case 0
  show ?case by (simp add: gen_loop_0 gen_init_def cash_after_0)
next
  case (Suc n)
  show ?case
    unfolding gen_loop_Suc Suc gen_step_unfold
    using assms by (simp add: cash_after_Suc month_row_def)
qed

lemma year_row_flush:
  assumes "Suc n mod 12 = 0"
  shows "\<lparr> period = Year (Suc (n div 12)),
           date = FullYear (fst (new_Date (startYear cfg) (startMonth cfg + int n))),
           revenue = jadd (jsum (map (month_revenue metrics cfg) [12 * (n div 12)..<n]))
                       (month_revenue metrics cfg n),
           expenses = jadd (jsum (map (month_expense metrics cfg) [12 * (n div 12)..<n]))
                        (month_expense metrics cfg n),
           profit = jsub (jadd (jsum (map (month_revenue metrics cfg) [12 * (n div 12)..<n]))
                            (month_revenue metrics cfg n))
                      (jadd (jsum (map (month_expense metrics cfg) [12 * (n div 12)..<n]))
                            (month_expense metrics cfg n)),
           cashBalance = jadd (cash_after metrics cfg n) (month_profit metrics cfg n) \<rparr>
         = year_row metrics cfg (n div 12)"
proof -
  have f: "12 * (n div 12) + 11 = n"
    by (rule year_end_last [OF assms])
  then have e: "12 * (n div 12) + 12 = Suc n"
    by linarith
  have le: "12 * (n div 12) \<le> n"
    by simp
  have up: "[12 * (n div 12)..<12 * (n div 12) + 12] = [12 * (n div 12)..<n] @ [n]"
    unfolding e using le by simp
  show ?thesis
    unfolding year_row_def up f e by (simp add: jsum_snoc cash_after_Suc)
qed

lemma gen_loop_yearly:
  assumes "interval cfg = yearly"
  shows "gen_loop metrics cfg n =
     \<lparr> currentCash = cash_after metrics cfg n,
       yearlyRevenueAccum = jsum (map (month_revenue metrics cfg) [12 * (n div 12)..<n]),
       yearlyExpenseAccum = jsum (map (month_expense metrics cfg) [12 * (n div 12)..<n]),
       data = map (year_row metrics cfg) [0..<n div 12] \<rparr>"
proof (induction n)
  case 0
  show ?case by (simp add: gen_loop_0 gen_init_def cash_after_0 jsum_Nil)
next
  case (Suc n)
  have le: "12 * (n div 12) \<le> n"
    by simp
  have step: "gen_loop metrics cfg (Suc n) =
    gen_step metrics cfg
      \<lparr> currentCash = cash_after metrics cfg n,
        yearlyRevenueAccum = jsum (map (month_revenue metrics cfg) [12 * (n div 12)..<n]),
        yearlyExpenseAccum = jsum (map (month_expense metrics cfg) [12 * (n div 12)..<n]),
        data = map (year_row metrics cfg) [0..<n div 12] \<rparr> n"
    unfolding gen_loop_Suc Suc by (rule refl)
  show ?case
  proof (cases "Suc n mod 12 = 0")
    case True
    have d: "Suc n div 12 = Suc (n div 12)"
      by (rule year_end_div [OF True])
    have e: "12 * Suc (n div 12) = Suc n"
      using year_end_last [OF True] by simp
    have "gen_loop metrics cfg (Suc n) =
      \<lparr> currentCash = cash_after metrics cfg (Suc n),
        yearlyRevenueAccum = Fin 0, yearlyExpenseAccum = Fin 0,
        data = map (year_row metrics cfg) [0..<n div 12] @ [year_row metrics cfg (n div 12)] \<rparr>"
      unfolding step gen_step_unfold
      using True assms by (simp add: year_row_flush [OF True] cash_after_Suc)
    then show ?thesis
      unfolding d e by (simp add: jsum_Nil)
  next
    case False
    have d: "Suc n div 12 = n div 12"
      by (rule year_mid_div [OF False])
    show ?thesis
      unfolding step gen_step_unfold d
      using False assms le by (simp add: cash_after_Suc jsum_snoc)
  qed
qed

lemma generateData_monthly:
  "interval cfg = monthly \<Longrightarrow>
   generateData metrics cfg = map (month_row metrics cfg) [0..<durationYears cfg * 12]"
  by (simp add: generateData_def gen_loop_monthly)

lemma generateData_yearly:
  "interval cfg = yearly \<Longrightarrow>
   generateData metrics cfg = map (year_row metrics cfg) [0..<durationYears cfg]"
  by (simp add: generateData_def gen_loop_yearly)

lemma generateData_monthly_nth:
  "interval cfg = monthly \<Longrightarrow> i < durationYears cfg * 12 \<Longrightarrow>
   generateData metrics cfg ! i = month_row metrics cfg i"
  by (simp add: generateData_monthly)

lemma generateData_yearly_nth:
  "interval cfg = yearly \<Longrightarrow> k < durationYears cfg \<Longrightarrow>
   generateData metrics cfg ! k = year_row metrics cfg k"
  by (simp add: generateData_yearly)

lemma month_revenue_interval [simp]:
  "month_revenue metrics (cfg\<lparr>interval := v\<rparr>) = month_revenue metrics cfg"
  by (simp add: month_revenue_def fun_eq_iff)

lemma month_expense_interval [simp]:
  "month_expense metrics (cfg\<lparr>interval := v\<rparr>) = month_expense metrics cfg"
  by (simp add: month_expense_def fun_eq_iff)

lemma month_profit_interval [simp]:
  "month_profit metrics (cfg\<lparr>interval := v\<rparr>) = month_profit metrics cfg"
  by (simp add: month_profit_def fun_eq_iff)

lemma cash_after_interval [simp]:
  "cash_after metrics (cfg\<lparr>interval := v\<rparr>) = cash_after metrics cfg"
  by (simp add: cash_after_def fun_eq_iff)




section \<open>Order of the rows\<close>

lemma date_key_month_row:
  "date_key (date (month_row metrics cfg i)) =
     12 * fst (new_Date (startYear cfg) 0) + startMonth cfg + int i"
  by (simp add: month_row_def new_Date_def Let_def)

lemma date_key_year_row:
  "date_key (date (year_row metrics cfg k)) =
     12 * fst (new_Date (startYear cfg) 0) + 12 * ((startMonth cfg + 11) div 12) + 12 * int k"
proof -
  have "(startMonth cfg + int (12 * k + 11)) div 12 = (startMonth cfg + 11) div 12 + int k"
    by simp
  then show ?thesis
    by (simp add: year_row_def new_Date_def Let_def)
qed

lemma sorted_wrt_upt_map:
  assumes "\<And>i j. i < j \<Longrightarrow> f i < (f j :: 'a :: order)"
  shows "sorted_wrt (<) (map f [0..<n])"
  by (simp add: sorted_wrt_map assms sorted_wrt_mono_rel [OF _ sorted_wrt_upt])

lemma monthly_rows_ordered:
  "sorted_wrt (<) (map (period_index \<circ> period) (map (month_row metrics cfg) [0..<n])) \<and>
   sorted_wrt (<) (map (date_key \<circ> date) (map (month_row metrics cfg) [0..<n]))"
proof
  have "sorted_wrt (<) (map (\<lambda>i. period_index (period (month_row metrics cfg i))) [0..<n])"
    by (rule sorted_wrt_upt_map) (simp add: month_row_def)
  then show "sorted_wrt (<) (map (period_index \<circ> period) (map (month_row metrics cfg) [0..<n]))"
    by (simp add: comp_def)
  have "sorted_wrt (<) (map (\<lambda>i. date_key (date (month_row metrics cfg i))) [0..<n])"
    by (rule sorted_wrt_upt_map) (simp add: date_key_month_row)
  then show "sorted_wrt (<) (map (date_key \<circ> date) (map (month_row metrics cfg) [0..<n]))"
    by (simp add: comp_def)
qed

lemma yearly_rows_ordered:
  "sorted_wrt (<) (map (period_index \<circ> period) (map (year_row metrics cfg) [0..<n])) \<and>
   sorted_wrt (<) (map (date_key \<circ> date) (map (year_row metrics cfg) [0..<n]))"
proof
  have "sorted_wrt (<) (map (\<lambda>i. period_index (period (year_row metrics cfg i))) [0..<n])"
    by (rule sorted_wrt_upt_map) (simp add: year_row_def)
  then show "sorted_wrt (<) (map (period_index \<circ> period) (map (year_row metrics cfg) [0..<n]))"
    by (simp add: comp_def)
  have "sorted_wrt (<) (map (\<lambda>i. date_key (date (year_row metrics cfg i))) [0..<n])"
    by (rule sorted_wrt_upt_map) (simp add: date_key_year_row)
  then show "sorted_wrt (<) (map (date_key \<circ> date) (map (year_row metrics cfg) [0..<n]))"
    by (simp add: comp_def)
qed


section \<open>Rounding to binary64\<close>

text \<open>
  Properties of \<open>rne\<close>, of the binade exponent and of \<open>round64\<close>: the sign of the
  result, exactness on representable values, monotonicity against a representable
  bound, and the evaluation of \<open>round64\<close> at a real whose binade is known.
\<close>

lemma rne_of_int [simp]: "rne (of_int k) = k"
  by (simp add: rne_def)

lemma rne_floor_le: "\<lfloor>t\<rfloor> \<le> rne t"
  by (simp add: rne_def Let_def)

lemma rne_le_floor_Suc: "rne t \<le> \<lfloor>t\<rfloor> + 1"
  by (simp add: rne_def Let_def)

lemma rne_ge: "of_int k \<le> t \<Longrightarrow> k \<le> rne t"
  using rne_floor_le [of t] le_floor_iff [of k t] by linarith

lemma rne_le: "t \<le> of_int k \<Longrightarrow> rne t \<le> k"
proof -
  assume a: "t \<le> of_int k"
  show ?thesis
  proof (cases "\<lfloor>t\<rfloor> = k")
    case True
    then have "t = of_int k" using a by linarith
    then show ?thesis by simp
  next
    case False
    then have "\<lfloor>t\<rfloor> + 1 \<le> k" using a by linarith
    then show ?thesis using rne_le_floor_Suc [of t] by linarith
  qed
qed

lemma rne_ge_half: "of_int k - 1 / 2 < t \<Longrightarrow> k \<le> rne t"
proof -
  assume a: "of_int k - 1 / 2 < t"
  show ?thesis
  proof (cases "k \<le> \<lfloor>t\<rfloor>")
    case True
    then show ?thesis using rne_floor_le [of t] by linarith
  next
    case False
    then have f: "\<lfloor>t\<rfloor> = k - 1" using a by linarith
    then have "1 / 2 < t - of_int \<lfloor>t\<rfloor>" using a by simp
    then have "rne t = \<lfloor>t\<rfloor> + 1" by (simp add: rne_def Let_def)
    then show ?thesis using f by simp
  qed
qed

lemma rne_zero [simp]: "rne 0 = 0"
  using rne_of_int [of 0] by simp

lemma two_powi_pos [simp]: "0 < (2::real) powi e"
  by (simp add: power_int_def)

lemma two_powi_mono: "a \<le> b \<Longrightarrow> (2::real) powi a \<le> 2 powi b"
  by (rule power_int_increasing) simp_all

lemma expo_ge: "- 1022 \<le> expo x"
  by (simp add: expo_def)

lemma expo_mono: "\<bar>x\<bar> \<le> \<bar>y\<bar> \<Longrightarrow> expo x \<le> expo y"
proof -
  assume "\<bar>x\<bar> \<le> \<bar>y\<bar>"
  then have "\<lfloor>\<bar>x\<bar> * 2 ^ 1075\<rfloor> \<le> \<lfloor>\<bar>y\<bar> * 2 ^ 1075\<rfloor>"
    by (intro floor_mono mult_right_mono) simp_all
  then have "bitlen \<lfloor>\<bar>x\<bar> * 2 ^ 1075\<rfloor> \<le> bitlen \<lfloor>\<bar>y\<bar> * 2 ^ 1075\<rfloor>"
    unfolding bitlen_def by (intro of_nat_mono floorlog_mono nat_mono)
  then show ?thesis by (simp add: expo_def)
qed

lemma expo_char:
  "\<bar>x\<bar> < 2 powi (expo x + 1) \<and> (expo x = - 1022 \<or> 2 powi expo x \<le> \<bar>x\<bar>)"
proof -
  define N :: nat where "N = 1075"
  define s where "s = \<bar>x\<bar> * 2 ^ N"
  define n where "n = \<lfloor>s\<rfloor>"
  define b where "b = bitlen n"
  have x: "\<bar>x\<bar> = s / 2 ^ N" by (simp add: s_def)
  have e: "expo x = max (- 1022) (b - 1 - int N)"
    by (simp add: expo_def b_def n_def s_def N_def)
  have s0: "0 \<le> s" by (simp add: s_def)
  have pN: "(2::real) powi (k - int N) = 2 powi k / 2 ^ N" for k
    using power_int_diff [of "2::real" k "int N"] by simp
  show ?thesis
  proof (cases "0 < n")
    case False
    then have "s < 1" unfolding n_def using s0 by linarith
    then have "\<bar>x\<bar> < 1 / 2 ^ N" unfolding x by (simp add: divide_strict_right_mono)
    also have "\<dots> = 2 powi (0 - int N)" unfolding pN by simp
    also have "\<dots> \<le> 2 powi (- 1021)" by (rule two_powi_mono) (simp add: N_def)
    finally have "\<bar>x\<bar> < 2 powi (- 1021)" .
    moreover have "b = 0" using False by (simp add: b_def bitlen_eq_zero_iff)
    then have "expo x = - 1022" by (simp add: e N_def)
    ultimately show ?thesis by simp
  next
    case True
    from bitlen_bounds [OF True]
    have lo: "2 ^ nat (b - 1) \<le> n" and hi: "n < 2 ^ nat b" by (simp_all add: b_def)
    have b1: "1 \<le> b" using True by (simp add: b_def bitlen_alt_def)
    have "real_of_int (2 ^ nat (b - 1)) \<le> real_of_int n" using lo by (simp only: of_int_le_iff)
    also have "\<dots> \<le> s" by (simp add: n_def)
    finally have slo: "2 ^ nat (b - 1) \<le> s" by simp
    have "n + 1 \<le> 2 ^ nat b" using hi by simp
    then have "real_of_int (n + 1) \<le> real_of_int (2 ^ nat b)" by (simp only: of_int_le_iff)
    moreover have "s < real_of_int (n + 1)" unfolding n_def by linarith
    ultimately have shi: "s < 2 ^ nat b" by simp
    have q1: "(2::real) powi (b - 1) = 2 ^ nat (b - 1)"
      using b1 by (simp add: power_int_def)
    have q2: "(2::real) powi b = 2 ^ nat b"
      using b1 by (simp add: power_int_def)
    have xlo: "2 powi (b - 1 - int N) \<le> \<bar>x\<bar>"
      unfolding pN q1 x using slo by (simp add: divide_right_mono)
    have xhi: "\<bar>x\<bar> < 2 powi (b - int N)"
      unfolding pN q2 x using shi by (simp add: divide_strict_right_mono)
    show ?thesis
    proof (cases "- 1022 \<le> b - 1 - int N")
      case True
      then have "expo x = b - 1 - int N" by (simp add: e)
      then show ?thesis using xlo xhi by simp
    next
      case False
      then have ex: "expo x = - 1022" by (simp add: e)
      have "(2::real) powi (b - int N) \<le> 2 powi (- 1021)"
        by (rule two_powi_mono) (use False in simp)
      then show ?thesis using xhi ex by simp
    qed
  qed
qed

lemma expo_unique:
  assumes "2 powi e \<le> \<bar>x\<bar>" "\<bar>x\<bar> < 2 powi (e + 1)" "- 1022 \<le> e"
  shows "expo x = e"
proof (rule antisym)
  show "expo x \<le> e"
  proof (rule ccontr)
    assume "\<not> expo x \<le> e"
    then have g: "e + 1 \<le> expo x" by simp
    then have "expo x \<noteq> - 1022" using assms(3) by simp
    then have "2 powi expo x \<le> \<bar>x\<bar>" using expo_char [of x] by simp
    moreover have "(2::real) powi (e + 1) \<le> 2 powi expo x" by (rule two_powi_mono [OF g])
    ultimately show False using assms(2) by simp
  qed
  show "e \<le> expo x"
  proof (rule ccontr)
    assume "\<not> e \<le> expo x"
    then have g: "expo x + 1 \<le> e" by simp
    have "\<bar>x\<bar> < 2 powi (expo x + 1)" using expo_char [of x] by simp
    moreover have "(2::real) powi (expo x + 1) \<le> 2 powi e" by (rule two_powi_mono [OF g])
    ultimately show False using assms(1) by simp
  qed
qed

lemma ulp_pos [simp]: "0 < ulp x"
  by (simp add: ulp_def)

lemma ulp_nonzero [simp]: "ulp x \<noteq> 0"
  by (simp add: ulp_def)

lemma ulp_nonneg [simp]: "0 \<le> ulp x"
  by (simp add: ulp_def)

lemma overflow_bound_powi: "overflow_bound = 2 powi 1024"
  by (simp add: overflow_bound_def)

lemma overflow_bound_pos [simp]: "0 < overflow_bound"
  by (simp add: overflow_bound_powi)

lemma round64_ulp:
  "round64 x =
    (if overflow_bound \<le> \<bar>real_of_int (rne (x / ulp x)) * ulp x\<bar>
     then (if 0 < x then PosInf else NegInf)
     else if real_of_int (rne (x / ulp x)) * ulp x = 0 then (if x < 0 then NegZero else F 0)
     else F (real_of_int (rne (x / ulp x)) * ulp x))"
  by (simp add: round64_def ulp_def Let_def)

lemma round64_zero [simp]: "round64 0 = F 0"
  using overflow_bound_pos by (simp add: round64_ulp del: overflow_bound_pos)

lemma round64_pos:
  assumes "0 < x"
  shows "round64 x = PosInf \<or> (\<exists>y. round64 x = F y \<and> 0 \<le> y)"
proof -
  have "0 \<le> x / ulp x" using assms by (simp add: zero_le_divide_iff)
  then have "0 \<le> rne (x / ulp x)" using rne_ge [of 0 "x / ulp x"] by simp
  then have "0 \<le> real_of_int (rne (x / ulp x)) * ulp x"
    by (simp add: zero_le_mult_iff)
  then show ?thesis using assms by (simp add: round64_ulp)
qed

lemma round64_neg:
  assumes "x < 0"
  shows "round64 x = NegInf \<or> round64 x = NegZero \<or> (\<exists>y. round64 x = F y \<and> y < 0)"
proof -
  define y where "y = real_of_int (rne (x / ulp x)) * ulp x"
  have r: "round64 x =
      (if overflow_bound \<le> \<bar>y\<bar> then (if 0 < x then PosInf else NegInf)
       else if y = 0 then (if x < 0 then NegZero else F 0) else F y)"
    unfolding y_def by (rule round64_ulp)
  have "x / ulp x \<le> 0" using assms by (simp add: divide_le_0_iff)
  then have "rne (x / ulp x) \<le> 0" using rne_le [of "x / ulp x" 0] by simp
  then have y0: "y \<le> 0"
    unfolding y_def by (simp add: mult_le_0_iff)
  show ?thesis
  proof (cases "overflow_bound \<le> \<bar>y\<bar>")
    case True
    then show ?thesis using assms by (simp add: r)
  next
    case False
    show ?thesis
    proof (cases "y = 0")
      case True
      then show ?thesis using assms False by (simp add: r)
    next
      case n: False
      then have "y < 0" using y0 by linarith
      then show ?thesis using False n by (simp add: r)
    qed
  qed
qed

lemma round64_not_nan [simp]: "round64 x \<noteq> NotANumber"
  by (simp add: round64_ulp)

lemma representable_int_mult:
  "representable x \<Longrightarrow> \<exists>k. x = real_of_int k * ulp x"
proof -
  assume "representable x"
  then obtain k where "x / ulp x = real_of_int k"
    by (auto simp add: representable_def ulp_def Ints_def)
  then have "x = real_of_int k * ulp x" by (simp add: divide_eq_eq)
  then show ?thesis ..
qed

lemma round64_exact:
  assumes "representable x" "x \<noteq> 0"
  shows "round64 x = F x"
proof -
  from representable_int_mult [OF assms(1)] obtain k where k: "x = real_of_int k * ulp x" ..
  then have "x / ulp x = real_of_int k" by (simp add: divide_eq_eq)
  then have "real_of_int (rne (x / ulp x)) * ulp x = x"
    using k by simp
  then show ?thesis using assms by (simp add: round64_ulp representable_def)
qed

lemma round64_binade:
  assumes "2 powi e \<le> \<bar>x\<bar>" "\<bar>x\<bar> < 2 powi (e + 1)" "- 1022 \<le> e"
  shows "round64 x =
    (if overflow_bound \<le> \<bar>real_of_int (rne (x / 2 powi (e - 52))) * 2 powi (e - 52)\<bar>
     then (if 0 < x then PosInf else NegInf)
     else if real_of_int (rne (x / 2 powi (e - 52))) * 2 powi (e - 52) = 0
     then (if x < 0 then NegZero else F 0)
     else F (real_of_int (rne (x / 2 powi (e - 52))) * 2 powi (e - 52)))"
  unfolding round64_ulp ulp_def expo_unique [OF assms] by (rule refl)

lemma round64_eval:
  assumes "2 powi e \<le> \<bar>x\<bar>" "\<bar>x\<bar> < 2 powi (e + 1)" "- 1022 \<le> e"
    "rne (x / 2 powi (e - 52)) = K" "y = real_of_int K * 2 powi (e - 52)"
    "y \<noteq> 0" "\<bar>y\<bar> < overflow_bound"
  shows "round64 x = F y"
  unfolding round64_binade [OF assms(1-3)] assms(4) assms(5) [symmetric]
  using assms(6,7) by simp

lemma representable_binade:
  assumes "2 powi e \<le> \<bar>x\<bar>" "\<bar>x\<bar> < 2 powi (e + 1)" "- 1022 \<le> e" "e \<le> 1023"
    "x / 2 powi (e - 52) \<in> \<int>"
  shows "representable x"
proof -
  have "(2::real) powi (e + 1) \<le> 2 powi 1024"
    by (rule two_powi_mono) (use assms(4) in simp)
  then have "\<bar>x\<bar> < overflow_bound"
    unfolding overflow_bound_powi using assms(2) by linarith
  then show ?thesis
    unfolding representable_def expo_unique [OF assms(1-3)] using assms(5) by simp
qed

lemma round64_le:
  assumes "representable d" "0 < d" "t \<le> d"
  shows "f64_le (round64 t) d"
proof (cases "0 < t")
  case False
  then consider "t = 0" | "t < 0" by linarith
  then show ?thesis
  proof cases
    case 1
    then show ?thesis using assms(2) by (simp add: f64_le_def)
  next
    case 2
    from round64_neg [OF this] show ?thesis using assms(2) by (auto simp add: f64_le_def)
  qed
next
  case True
  then have "\<bar>t\<bar> \<le> \<bar>d\<bar>" using assms(3) by simp
  then have e: "expo t \<le> expo d" by (rule expo_mono)
  from representable_int_mult [OF assms(1)] obtain k where k: "d = real_of_int k * ulp d" ..
  have ud: "ulp d = ulp t * 2 ^ nat (expo d - expo t)"
  proof -
    have "ulp d = 2 powi ((expo t - 52) + (expo d - expo t))" by (simp add: ulp_def)
    also have "\<dots> = 2 powi (expo t - 52) * 2 powi (expo d - expo t)"
      by (rule power_int_add) simp
    also have "2 powi (expo d - expo t) = (2::real) ^ nat (expo d - expo t)"
      using e by (simp add: power_int_def)
    finally show ?thesis by (simp add: ulp_def)
  qed
  have "d = real_of_int (k * 2 ^ nat (expo d - expo t)) * ulp t"
    using k by (simp add: ud algebra_simps)
  then have dk: "d / ulp t = real_of_int (k * 2 ^ nat (expo d - expo t))"
    by (simp add: divide_eq_eq)
  have "t / ulp t \<le> d / ulp t"
    using assms(3) by (intro divide_right_mono) simp_all
  then have "rne (t / ulp t) \<le> k * 2 ^ nat (expo d - expo t)"
    unfolding dk by (rule rne_le)
  then have "real_of_int (rne (t / ulp t)) \<le> real_of_int (k * 2 ^ nat (expo d - expo t))"
    by (simp only: of_int_le_iff)
  then have "real_of_int (rne (t / ulp t)) * ulp t \<le> d / ulp t * ulp t"
    unfolding dk by (intro mult_right_mono) simp_all
  then have yd: "real_of_int (rne (t / ulp t)) * ulp t \<le> d" by simp
  have "0 \<le> t / ulp t" using True by (simp add: zero_le_divide_iff)
  then have "0 \<le> rne (t / ulp t)" using rne_ge [of 0 "t / ulp t"] by simp
  then have y0: "0 \<le> real_of_int (rne (t / ulp t)) * ulp t"
    by (simp add: zero_le_mult_iff)
  have "d < overflow_bound" using assms(1,2) by (simp add: representable_def)
  then have "\<not> overflow_bound \<le> \<bar>real_of_int (rne (t / ulp t)) * ulp t\<bar>"
    using yd y0 by linarith
  then show ?thesis
    using yd True assms(2) by (simp add: round64_ulp f64_le_def)
qed

lemma round64_ge:
  assumes "representable d" "0 < d" "d \<le> t"
  shows "f64_ge (round64 t) d"
proof -
  have t0: "0 < t" using assms(2,3) by linarith
  then have "\<bar>d\<bar> \<le> \<bar>t\<bar>" using assms(2,3) by simp
  then have e: "expo d \<le> expo t" by (rule expo_mono)
  have yd: "d \<le> real_of_int (rne (t / ulp t)) * ulp t"
  proof (cases "expo d = expo t")
    case True
    then have u: "ulp t = ulp d" by (simp add: ulp_def)
    from representable_int_mult [OF assms(1)] obtain k where k: "d = real_of_int k * ulp d" ..
    then have dk: "d / ulp d = real_of_int k" by (simp add: divide_eq_eq)
    have "d / ulp d \<le> t / ulp d"
      using assms(3) by (intro divide_right_mono) simp_all
    then have "k \<le> rne (t / ulp d)" unfolding dk by (rule rne_ge)
    then have "real_of_int k \<le> real_of_int (rne (t / ulp d))" by (simp only: of_int_le_iff)
    then have "real_of_int k * ulp d \<le> real_of_int (rne (t / ulp d)) * ulp d"
      by (intro mult_right_mono) simp_all
    then show ?thesis using k by (simp add: u)
  next
    case False
    then have lt: "expo d + 1 \<le> expo t" using e by simp
    then have "expo t \<noteq> - 1022" using expo_ge [of d] by linarith
    then have lo: "2 powi expo t \<le> t" using expo_char [of t] t0 by simp
    have "d < 2 powi (expo d + 1)" using expo_char [of d] assms(2) by simp
    also have "\<dots> \<le> 2 powi expo t" by (rule two_powi_mono [OF lt])
    finally have dl: "d < 2 powi expo t" .
    have p: "(2::real) powi expo t = 2 ^ 52 * ulp t"
    proof -
      have "(2::real) powi expo t = 2 powi (52 + (expo t - 52))" by simp
      also have "\<dots> = 2 powi 52 * 2 powi (expo t - 52)"
        by (rule power_int_add) simp
      finally show ?thesis by (simp add: ulp_def)
    qed
    have "real_of_int (2 ^ 52) * ulp t \<le> t"
      using lo unfolding p by simp
    then have "real_of_int (2 ^ 52) \<le> t / ulp t"
      by (simp add: pos_le_divide_eq)
    then have "2 ^ 52 \<le> rne (t / ulp t)" by (rule rne_ge)
    then have "real_of_int (2 ^ 52) \<le> real_of_int (rne (t / ulp t))" by (simp only: of_int_le_iff)
    then have "real_of_int (2 ^ 52) * ulp t \<le> real_of_int (rne (t / ulp t)) * ulp t"
      by (intro mult_right_mono) simp_all
    then have "2 powi expo t \<le> real_of_int (rne (t / ulp t)) * ulp t"
      unfolding p by simp
    then show ?thesis using dl by linarith
  qed
  define y where "y = real_of_int (rne (t / ulp t)) * ulp t"
  have r: "round64 t =
      (if overflow_bound \<le> \<bar>y\<bar> then (if 0 < t then PosInf else NegInf)
       else if y = 0 then (if t < 0 then NegZero else F 0) else F y)"
    unfolding y_def by (rule round64_ulp)
  have dy: "d \<le> y" using yd by (simp add: y_def)
  then have "y \<noteq> 0" using assms(2) by linarith
  then show ?thesis
    using dy t0 by (simp add: r f64_ge_def)
qed

lemma representable_of_int:
  assumes "\<bar>n\<bar> < 2 ^ 53"
  shows "representable (real_of_int n)"
proof (cases "n = 0")
  case True
  then show ?thesis by (simp add: representable_def)
next
  case False
  define e where "e = expo (real_of_int n)"
  have n1: "1 \<le> \<bar>real_of_int n\<bar>" using False by linarith
  have nb: "\<bar>real_of_int n\<bar> < 2 ^ 53"
  proof -
    have "real_of_int \<bar>n\<bar> < real_of_int (2 ^ 53)" using assms by (simp only: of_int_less_iff)
    then show ?thesis by simp
  qed
  have e52: "e \<le> 52"
  proof (rule ccontr)
    assume "\<not> e \<le> 52"
    then have g: "53 \<le> e" by simp
    then have "e \<noteq> - 1022" by simp
    then have "2 powi e \<le> \<bar>real_of_int n\<bar>" using expo_char [of "real_of_int n"] by (simp add: e_def)
    moreover have "(2::real) powi 53 \<le> 2 powi e" by (rule two_powi_mono [OF g])
    ultimately show False using nb by simp
  qed
  have "real_of_int n / 2 powi (e - 52) = real_of_int n * 2 powi (52 - e)"
    using power_int_minus_divide [of "2::real" "52 - e"] by (simp add: field_simps)
  also have "(2::real) powi (52 - e) = 2 ^ nat (52 - e)"
    using e52 by (simp add: power_int_def)
  also have "real_of_int n * 2 ^ nat (52 - e) = real_of_int (n * 2 ^ nat (52 - e))" by simp
  finally have "real_of_int n / 2 powi (e - 52) \<in> \<int>" by simp
  moreover have "\<bar>real_of_int n\<bar> < overflow_bound"
  proof -
    have "(2::real) ^ 53 \<le> 2 ^ 1024" by (rule power_increasing) simp_all
    then show ?thesis unfolding overflow_bound_def using nb by linarith
  qed
  ultimately show ?thesis by (simp add: representable_def e_def)
qed

lemma round64_of_int: "\<bar>n\<bar> < 2 ^ 53 \<Longrightarrow> round64 (real_of_int n) = F (real_of_int n)"
  using round64_exact [OF representable_of_int, of n] by (cases "n = 0") simp_all

lemma round64_numeral [simp]:
  "(numeral k :: int) < 2 ^ 53 \<Longrightarrow> round64 (numeral k) = F (numeral k)"
  using round64_of_int [of "numeral k"] by simp

lemma round64_neg_numeral [simp]:
  "(numeral k :: int) < 2 ^ 53 \<Longrightarrow> round64 (- numeral k) = F (- numeral k)"
  using round64_of_int [of "- numeral k"] by simp

lemma round64_one [simp]: "round64 1 = F 1"
  using round64_of_int [of 1] by simp

lemma round64_minus_one [simp]: "round64 (- 1) = F (- 1)"
  using round64_of_int [of "- 1"] by simp

lemma round64_nat: "n < 2 ^ 53 \<Longrightarrow> round64 (real n) = F (real n)"
  using round64_of_int [of "int n"] by simp

lemma representable_one: "representable 1"
  using representable_of_int [of 1] by simp

lemma round64_tenth: "round64 (1 / 10) = F (3602879701896397 / 36028797018963968)"
proof -
  have "round64 (1 / 10) =
    (if overflow_bound \<le> \<bar>real_of_int (rne ((1 / 10) / 2 powi (- 4 - 52))) * 2 powi (- 4 - 52)\<bar>
     then (if 0 < (1 / 10 :: real) then PosInf else NegInf)
     else if real_of_int (rne ((1 / 10) / 2 powi (- 4 - 52))) * 2 powi (- 4 - 52) = 0
     then (if (1 / 10 :: real) < 0 then NegZero else F 0)
     else F (real_of_int (rne ((1 / 10) / 2 powi (- 4 - 52))) * 2 powi (- 4 - 52)))"
    by (rule round64_binade) simp_all
  moreover have "rne ((1 / 10) / 2 powi (- 4 - 52)) = 7205759403792794"
    by (simp add: rne_def Let_def)
  ultimately show ?thesis
    by (simp add: overflow_bound_def)
qed


section \<open>The binary64 operations\<close>

text \<open>
  The equations that evaluate the operations, and the facts about signs and zeros that
  the properties of the metrics need.
\<close>

lemmas f64_ops = fadd_def fsub_def fmul_def fdiv_def fless_def fgt_def fge_def
  is_inf_def is_zero_def signed_zero_def signed_infinity_def

lemma round64_ratio_ge:
  assumes "90 \<le> x"
  shows "round64 (x / 100) = PosInf \<or>
         (\<exists>y. round64 (x / 100) = F y \<and> 8106479329266893 / 9007199254740992 \<le> y)"
proof (cases "1 \<le> x / 100")
  case True
  from round64_ge [OF representable_one _ True]
  have "f64_ge (round64 (x / 100)) 1" by simp
  then show ?thesis by (auto simp add: f64_ge_def)
next
  case False
  define t where "t = x / 100"
  have t: "9 / 10 \<le> t" "t < 1" using assms False by (simp_all add: t_def)
  define K where "K = rne (t / 2 powi (- 1 - 52))"
  have r: "round64 t =
    (if overflow_bound \<le> \<bar>real_of_int K * 2 powi (- 1 - 52)\<bar>
     then (if 0 < t then PosInf else NegInf)
     else if real_of_int K * 2 powi (- 1 - 52) = 0
     then (if t < 0 then NegZero else F 0)
     else F (real_of_int K * 2 powi (- 1 - 52)))"
    unfolding K_def by (rule round64_binade) (use t in simp_all)
  have s: "t / 2 powi (- 1 - 52) = t * 9007199254740992" by simp
  have "real_of_int 8106479329266893 - 1 / 2 < t * 9007199254740992" using t(1) by simp
  then have lo: "8106479329266893 \<le> K" unfolding K_def s by (rule rne_ge_half)
  have "t * 9007199254740992 \<le> real_of_int 9007199254740992" using t(2) by simp
  then have hi: "K \<le> 9007199254740992" unfolding K_def s by (rule rne_le)
  have y: "real_of_int K * 2 powi (- 1 - 52) = real_of_int K / 9007199254740992" by simp
  have ylo: "8106479329266893 / 9007199254740992 \<le> real_of_int K / 9007199254740992"
    using lo by simp
  have yhi: "real_of_int K / 9007199254740992 \<le> 1" using hi by simp
  have "(1::real) < overflow_bound" by (simp add: overflow_bound_def)
  then have "\<not> overflow_bound \<le> \<bar>real_of_int K / 9007199254740992\<bar>"
    using ylo yhi by linarith
  moreover have "real_of_int K / 9007199254740992 \<noteq> 0" using ylo by linarith
  ultimately have "round64 t = F (real_of_int K / 9007199254740992)"
    unfolding r y by simp
  then have "round64 (x / 100) = F (real_of_int K / 9007199254740992)"
    by (simp only: t_def)
  with ylo show ?thesis by blast
qed

lemma representable_one_minus_ratio: "representable (900719925474099 / 9007199254740992)"
  by (rule representable_binade [where e = "- 4"]) simp_all

lemma not_fgt_round64_neg: "x < 0 \<Longrightarrow> \<not> fgt (round64 x) (F 0)"
  using round64_neg [of x] by (auto simp add: f64_ops)

lemma denominator_nonpos:
  assumes "fge v (F 90)"
  shows "\<not> fgt (fsub (fsub (F 1) (fdiv v (F 100))) (round64 (1 / 10))) (F 0)"
proof -
  let ?c = "3602879701896397 / 36028797018963968 :: real"
  let ?b = "900719925474099 / 9007199254740992 :: real"
  from assms consider "v = PosInf" | x where "v = F x" "90 \<le> x"
    by (cases v) (auto simp add: f64_ops split: if_splits)
  then show ?thesis
  proof cases
    case 1
    then show ?thesis by (simp add: f64_ops round64_tenth)
  next
    case 2
    have d: "fdiv v (F 100) = round64 (x / 100)" using 2 by (simp add: f64_ops)
    from round64_ratio_ge [OF 2(2)] consider "round64 (x / 100) = PosInf"
      | y where "round64 (x / 100) = F y" "8106479329266893 / 9007199254740992 \<le> y"
      by blast
    then show ?thesis
    proof cases
      case 1
      then show ?thesis unfolding d by (simp add: f64_ops round64_tenth)
    next
      case 2
      have s1: "fsub (F 1) (F y) = (if 1 - y = 0 then F 0 else round64 (1 - y))"
        using 2(2) by (simp add: f64_ops)
      have le: "f64_le (fsub (F 1) (F y)) ?b"
      proof (cases "1 - y = 0")
        case True
        then show ?thesis unfolding s1 by (simp add: f64_le_def)
      next
        case False
        have "1 - y \<le> ?b" using 2(2) by simp
        from round64_le [OF representable_one_minus_ratio _ this] False
        show ?thesis unfolding s1 by simp
      qed
      then consider "fsub (F 1) (F y) = NegInf" | "fsub (F 1) (F y) = NegZero"
        | z where "fsub (F 1) (F y) = F z" "z \<le> ?b"
        by (auto simp add: f64_le_def)
      then have "\<not> fgt (fsub (fsub (F 1) (F y)) (F ?c)) (F 0)"
      proof cases
        case 1
        then show ?thesis by (simp add: f64_ops)
      next
        case 2
        have "fsub NegZero (F ?c) = round64 (- ?c)" by (simp add: f64_ops)
        then show ?thesis unfolding 2 using not_fgt_round64_neg [of "- ?c"] by simp
      next
        case 3
        have n: "z - ?c < 0" using 3(2) by simp
        then have "fsub (F z) (F ?c) = round64 (z - ?c)" by (simp add: f64_ops)
        then show ?thesis unfolding 3(1) using not_fgt_round64_neg [OF n] by simp
      qed
      then show ?thesis unfolding d 2(1) round64_tenth .
    qed
  qed
qed

lemma fge_round64_pos: "0 < x \<Longrightarrow> fge (round64 x) (F 0)"
  using round64_pos [of x] by (auto simp add: f64_ops)

lemma fge_zero_cases:
  "fge a (F 0) = (a = PosInf \<or> a = NegZero \<or> (\<exists>y. a = F y \<and> 0 \<le> y))"
  by (cases a) (auto simp add: f64_ops)

lemma zero_or_nan_fmul_left: "zero_or_nan a \<Longrightarrow> zero_or_nan (fmul a b)"
  by (cases b) (auto simp add: zero_or_nan_def f64_ops)

lemma zero_or_nan_fmul_right: "zero_or_nan b \<Longrightarrow> zero_or_nan (fmul a b)"
  by (cases a) (auto simp add: zero_or_nan_def f64_ops)

lemma zero_or_nan_fadd: "zero_or_nan a \<Longrightarrow> zero_or_nan b \<Longrightarrow> zero_or_nan (fadd a b)"
  by (auto simp add: zero_or_nan_def f64_ops)

lemma zero_or_nan_not_fgt: "zero_or_nan a \<Longrightarrow> \<not> fgt a (F 0)"
  by (auto simp add: zero_or_nan_def f64_ops)

lemma zero_or_nan_nonneg: "zero_or_nan a \<Longrightarrow> nonneg_or_nan a"
  by (auto simp add: zero_or_nan_def nonneg_or_nan_def f64_ops)

lemma fge_fmul_twelve: "fge a (F 0) \<Longrightarrow> fge (fmul a (F 12)) (F 0)"
proof -
  assume "fge a (F 0)"
  then consider "a = PosInf" | "a = NegZero" | "a = F 0" | y where "a = F y" "0 < y"
    unfolding fge_zero_cases by (auto simp add: less_le)
  then show ?thesis
  proof cases
    case 4
    then have "fmul a (F 12) = round64 (y * 12)" by (simp add: f64_ops)
    then show ?thesis using fge_round64_pos [of "y * 12"] 4(2) by simp
  qed (simp_all add: f64_ops)
qed

lemma nonneg_or_nan_fadd:
  assumes "nonneg_or_nan a" "fge b (F 0)"
  shows "nonneg_or_nan (fadd a b)"
proof (cases "a = NotANumber")
  case True
  then show ?thesis by (simp add: nonneg_or_nan_def f64_ops)
next
  case False
  then have a: "fge a (F 0)" using assms(1) by (simp add: nonneg_or_nan_def)
  have "fge (fadd a b) (F 0)"
  proof (cases "a = PosInf \<or> b = PosInf")
    case True
    then show ?thesis using a assms(2) unfolding fge_zero_cases by (auto simp add: f64_ops)
  next
    case False
    then have fa: "0 \<le> fval a" and fb: "0 \<le> fval b"
      and na: "a = NegZero \<or> a = F (fval a)" and nb: "b = NegZero \<or> b = F (fval b)"
      using a assms(2) unfolding fge_zero_cases by auto
    show ?thesis
    proof (cases "fval a + fval b = 0")
      case True
      then show ?thesis using na nb by (auto simp add: f64_ops)
    next
      case n: False
      then have "0 < fval a + fval b" using fa fb by linarith
      from fge_round64_pos [OF this] have "fge (round64 (fval a + fval b)) (F 0)" .
      moreover have "fadd a b = round64 (fval a + fval b)"
        using n na nb by (auto simp add: f64_ops)
      ultimately show ?thesis by simp
    qed
  qed
  then show ?thesis by (simp add: nonneg_or_nan_def)
qed

lemma not_fgt_zero_minus_nonneg:
  assumes "zero_or_nan r" "nonneg_or_nan t"
  shows "\<not> fgt (fsub r t) (F 0)"
proof (cases "r = NotANumber \<or> t = NotANumber")
  case True
  then show ?thesis by (cases t) (auto simp add: f64_ops)
next
  case False
  then have r: "is_zero r" and t: "fge t (F 0)"
    using assms by (simp_all add: zero_or_nan_def nonneg_or_nan_def)
  from t consider "t = PosInf" | "t = NegZero" | "t = F 0" | y where "t = F y" "0 < y"
    unfolding fge_zero_cases by (auto simp add: less_le)
  then show ?thesis
  proof cases
    case 4
    then have "fsub r t = round64 (- y)" using r by (auto simp add: f64_ops)
    then show ?thesis using not_fgt_round64_neg [of "- y"] 4(2) by simp
  qed (use r in \<open>auto simp add: f64_ops\<close>)
qed

lemma fmul_zero_round64:
  assumes "0 < x" "x \<le> 1"
  shows "fmul (F 0) (round64 x) = F 0"
proof -
  from round64_le [OF representable_one _ assms(2)] have "f64_le (round64 x) 1" by simp
  then have "round64 x \<noteq> PosInf" by (auto simp add: f64_le_def)
  with round64_pos [OF assms(1)] obtain y where "round64 x = F y" "0 \<le> y" by blast
  then show ?thesis by (simp add: f64_ops)
qed

lemma zero_growth_expense_factor:
  "fadd (F 1) (fmul (fdiv (fmul (F 0) (F (1 / 2))) (F 100)) (F (real k))) = F 1"
  by (simp add: f64_ops)




section \<open>Single operations at the operands of the scenarios\<close>

text \<open>
  The results of single operations at concrete operands, each by evaluating the
  rounding in the binade of the exact result.
\<close>

lemma sum_step1:
  "fadd (F (4236198399495373 / 140737488355328)) (F (7093169413108531 / 281474976710656)) = F (3891391553024819 / 70368744177664)"
  apply (simp add: f64_ops)
  apply (rule round64_eval [where e = "5" and K = "7782783106049638"])
  apply (simp_all add: rne_def Let_def overflow_bound_def)
  done

lemma sum_step2:
  "fadd (F (3891391553024819 / 70368744177664)) (F (3293257227514675 / 140737488355328)) = F (1384505041695539 / 17592186044416)"
  apply (simp add: f64_ops)
  apply (rule round64_eval [where e = "6" and K = "5538020166782156"])
  apply (simp_all add: rne_def Let_def overflow_bound_def)
  done

lemma sum_step3:
  "fadd (F (1384505041695539 / 17592186044416)) (F (3180667236830413 / 281474976710656)) = F (6333186975989759 / 70368744177664)"
  apply (simp add: f64_ops)
  apply (rule round64_eval [where e = "6" and K = "6333186975989759"])
  apply (simp_all add: rne_def Let_def overflow_bound_def)
  done

lemma ratio_step:
  "fdiv (F (6333186975989759 / 70368744177664)) (F 100) = F (2026619832316723 / 2251799813685248)"
  apply (simp add: f64_ops)
  apply (rule round64_eval [where e = "- 1" and K = "8106479329266892"])
  apply (simp_all add: rne_def Let_def overflow_bound_def)
  done

lemma one_minus_ratio_step:
  "fsub (F 1) (F (2026619832316723 / 2251799813685248)) = F (225179981368525 / 2251799813685248)"
  apply (simp add: f64_ops)
  apply (rule round64_eval [where e = "- 4" and K = "7205759403792800"])
  apply (simp_all add: rne_def Let_def overflow_bound_def)
  done

lemma denominator_step:
  "fsub (F (225179981368525 / 2251799813685248)) (F (3602879701896397 / 36028797018963968)) = F (3 / 36028797018963968)"
  apply (simp add: f64_ops)
  apply (rule round64_eval [where e = "- 54" and K = "6755399441055744"])
  apply (simp_all add: rne_def Let_def overflow_bound_def)
  done

lemma required_revenue_step:
  "fdiv (F 1200000) (F (3 / 36028797018963968)) = F 14411518807585587200000"
  apply (simp add: f64_ops)
  apply (rule round64_eval [where e = "73" and K = "6871947673600000"])
  apply (simp_all add: rne_def Let_def overflow_bound_def)
  done

lemma per_day_step:
  "fdiv (F 14411518807585587200000) (F 320) = F 45035996273704960000"
  apply (simp add: f64_ops)
  apply (rule round64_eval [where e = "65" and K = "5497558138880000"])
  apply (simp_all add: rne_def Let_def overflow_bound_def)
  done

lemma per_ticket_step:
  "fdiv (F 45035996273704960000) (F 100) = F 450359962737049600"
  apply (simp add: f64_ops)
  apply (rule round64_eval [where e = "58" and K = "7036874417766400"])
  apply (simp_all add: rne_def Let_def overflow_bound_def)
  done

lemma payback_step:
  "fdiv (F 925000) (F 600000) = F (6943049425529515 / 4503599627370496)"
  apply (simp add: f64_ops)
  apply (rule round64_eval [where e = "0" and K = "6943049425529515"])
  apply (simp_all add: rne_def Let_def overflow_bound_def)
  done

lemma tie_step:
  "fadd (F (- 9007199254740992)) (F (- 1)) = F (- 9007199254740992)"
  apply (simp add: f64_ops)
  apply (rule round64_eval [where e = "53" and K = "- 4503599627370496"])
  apply (simp_all add: rne_def Let_def overflow_bound_def)
  done

lemma first_row_step:
  "fadd (F (- 9007199254740992)) (F (- 12)) = F (- 9007199254741004)"
  apply (simp add: f64_ops)
  apply (rule round64_eval [where e = "53" and K = "- 4503599627370502"])
  apply (simp_all add: rne_def Let_def overflow_bound_def)
  done




lemma two_1020_pos [simp]: "0 < two_1020"
  by (simp add: two_1020_def)

lemma two_1020_nonzero [simp]: "two_1020 \<noteq> 0"
  using two_1020_pos by linarith

lemma round64_two_1020: "round64 two_1020 = F two_1020"
  by (rule round64_eval [where e = "1020" and K = "2 ^ 52"])
    (simp_all add: two_1020_def rne_def Let_def overflow_bound_def)

lemma round64_minus_two_1020: "round64 (- two_1020) = F (- two_1020)"
  by (rule round64_eval [where e = "1020" and K = "- (2 ^ 52)"])
    (simp_all add: two_1020_def rne_def Let_def overflow_bound_def)

lemma round64_overflow: "round64 (- (16 * two_1020)) = NegInf"
proof -
  have "round64 (- (16 * two_1020)) =
    (if overflow_bound \<le> \<bar>real_of_int (rne (- (16 * two_1020) / 2 powi (1024 - 52))) * 2 powi (1024 - 52)\<bar>
     then (if 0 < - (16 * two_1020) then PosInf else NegInf)
     else if real_of_int (rne (- (16 * two_1020) / 2 powi (1024 - 52))) * 2 powi (1024 - 52) = 0
     then (if - (16 * two_1020) < 0 then NegZero else F 0)
     else F (real_of_int (rne (- (16 * two_1020) / 2 powi (1024 - 52))) * 2 powi (1024 - 52)))"
    by (rule round64_binade) (simp_all add: two_1020_def)
  then show ?thesis
    by (simp add: two_1020_def rne_def Let_def overflow_bound_def)
qed


section \<open>The binary64 loop, iteration by iteration\<close>

lemma gen_step64_unfold:
  "gen_step64 impl metrics cfg st i =
    (if interval cfg = yearly
     then (if Suc i mod 12 = 0
       then \<lparr> currentCash64 = fadd (currentCash64 st) (month_profit64 impl metrics cfg i),
            yearlyRevenueAccum64 = F 0, yearlyExpenseAccum64 = F 0,
            data64 = data64 st @
              [\<lparr> period64 = Year (i div 12 + 1),
                 date64 = FullYear (fst (new_Date (startYear cfg) (startMonth cfg + int i))),
                 revenue64 = fadd (yearlyRevenueAccum64 st) (month_revenue64 impl metrics cfg i),
                 expenses64 = fadd (yearlyExpenseAccum64 st) (month_expense64 metrics cfg i),
                 profit64 = fsub (fadd (yearlyRevenueAccum64 st) (month_revenue64 impl metrics cfg i))
                            (fadd (yearlyExpenseAccum64 st) (month_expense64 metrics cfg i)),
                 cashBalance64 = fadd (currentCash64 st) (month_profit64 impl metrics cfg i) \<rparr>] \<rparr>
       else \<lparr> currentCash64 = fadd (currentCash64 st) (month_profit64 impl metrics cfg i),
            yearlyRevenueAccum64 = fadd (yearlyRevenueAccum64 st) (month_revenue64 impl metrics cfg i),
            yearlyExpenseAccum64 = fadd (yearlyExpenseAccum64 st) (month_expense64 metrics cfg i),
            data64 = data64 st \<rparr>)
     else \<lparr> currentCash64 = fadd (currentCash64 st) (month_profit64 impl metrics cfg i),
            yearlyRevenueAccum64 = yearlyRevenueAccum64 st,
            yearlyExpenseAccum64 = yearlyExpenseAccum64 st,
            data64 = data64 st @
              [\<lparr> period64 = Month (i + 1),
                 date64 = ShortMonthYear (fst (new_Date (startYear cfg) (startMonth cfg + int i)))
                          (snd (new_Date (startYear cfg) (startMonth cfg + int i))),
                 revenue64 = month_revenue64 impl metrics cfg i,
                 expenses64 = month_expense64 metrics cfg i,
                 profit64 = month_profit64 impl metrics cfg i,
                 cashBalance64 = fadd (currentCash64 st) (month_profit64 impl metrics cfg i) \<rparr>] \<rparr>)"
  unfolding gen_step64_def Let_def flush_iff month_profit64_def month_revenue64_def
    month_expense64_def
  by (rule refl)

lemma gen_loop64_0: "gen_loop64 impl metrics cfg 0 = gen_init64 metrics"
  by (simp add: gen_loop64_def)

lemma gen_loop64_Suc:
  "gen_loop64 impl metrics cfg (Suc n) =
     gen_step64 impl metrics cfg (gen_loop64 impl metrics cfg n) n"
  by (simp add: gen_loop64_def)

lemma cash_after64_0: "cash_after64 impl metrics cfg 0 = fneg (totalInvestment64 metrics)"
  by (simp add: cash_after64_def)

lemma cash_after64_Suc:
  "cash_after64 impl metrics cfg (Suc n) =
     fadd (cash_after64 impl metrics cfg n) (month_profit64 impl metrics cfg n)"
  by (simp add: cash_after64_def)

lemma jsum64_Nil: "jsum64 [] = F 0"
  by (simp add: jsum64_def)

lemma jsum64_snoc: "jsum64 (xs @ [x]) = fadd (jsum64 xs) x"
  by (simp add: jsum64_def)

lemma gen_loop64_monthly:
  assumes "interval cfg = monthly"
  shows "gen_loop64 impl metrics cfg n =
     \<lparr> currentCash64 = cash_after64 impl metrics cfg n, yearlyRevenueAccum64 = F 0,
       yearlyExpenseAccum64 = F 0, data64 = map (month_row64 impl metrics cfg) [0..<n] \<rparr>"
proof (induction n)
  case 0
  show ?case by (simp add: gen_loop64_0 gen_init64_def cash_after64_0)
next
  case (Suc n)
  show ?case
    unfolding gen_loop64_Suc Suc gen_step64_unfold
    using assms by (simp add: cash_after64_Suc month_row64_def)
qed

lemma year_row64_flush:
  assumes "Suc n mod 12 = 0"
  shows "\<lparr> period64 = Year (Suc (n div 12)),
           date64 = FullYear (fst (new_Date (startYear cfg) (startMonth cfg + int n))),
           revenue64 = fadd (jsum64 (map (month_revenue64 impl metrics cfg) [12 * (n div 12)..<n]))
                       (month_revenue64 impl metrics cfg n),
           expenses64 = fadd (jsum64 (map (month_expense64 metrics cfg) [12 * (n div 12)..<n]))
                        (month_expense64 metrics cfg n),
           profit64 = fsub (fadd (jsum64 (map (month_revenue64 impl metrics cfg) [12 * (n div 12)..<n]))
                            (month_revenue64 impl metrics cfg n))
                      (fadd (jsum64 (map (month_expense64 metrics cfg) [12 * (n div 12)..<n]))
                            (month_expense64 metrics cfg n)),
           cashBalance64 = fadd (cash_after64 impl metrics cfg n) (month_profit64 impl metrics cfg n) \<rparr>
         = year_row64 impl metrics cfg (n div 12)"
proof -
  have f: "12 * (n div 12) + 11 = n"
    by (rule year_end_last [OF assms])
  then have e: "12 * (n div 12) + 12 = Suc n"
    by linarith
  have le: "12 * (n div 12) \<le> n"
    by simp
  have up: "[12 * (n div 12)..<12 * (n div 12) + 12] = [12 * (n div 12)..<n] @ [n]"
    unfolding e using le by simp
  show ?thesis
    unfolding year_row64_def up f e by (simp add: jsum64_snoc cash_after64_Suc)
qed

lemma gen_loop64_yearly:
  assumes "interval cfg = yearly"
  shows "gen_loop64 impl metrics cfg n =
     \<lparr> currentCash64 = cash_after64 impl metrics cfg n,
       yearlyRevenueAccum64 = jsum64 (map (month_revenue64 impl metrics cfg) [12 * (n div 12)..<n]),
       yearlyExpenseAccum64 = jsum64 (map (month_expense64 metrics cfg) [12 * (n div 12)..<n]),
       data64 = map (year_row64 impl metrics cfg) [0..<n div 12] \<rparr>"
proof (induction n)
  case 0
  show ?case by (simp add: gen_loop64_0 gen_init64_def cash_after64_0 jsum64_Nil)
next
  case (Suc n)
  have le: "12 * (n div 12) \<le> n"
    by simp
  have step: "gen_loop64 impl metrics cfg (Suc n) =
    gen_step64 impl metrics cfg
      \<lparr> currentCash64 = cash_after64 impl metrics cfg n,
        yearlyRevenueAccum64 = jsum64 (map (month_revenue64 impl metrics cfg) [12 * (n div 12)..<n]),
        yearlyExpenseAccum64 = jsum64 (map (month_expense64 metrics cfg) [12 * (n div 12)..<n]),
        data64 = map (year_row64 impl metrics cfg) [0..<n div 12] \<rparr> n"
    unfolding gen_loop64_Suc Suc by (rule refl)
  show ?case
  proof (cases "Suc n mod 12 = 0")
    case True
    have d: "Suc n div 12 = Suc (n div 12)"
      by (rule year_end_div [OF True])
    have e: "12 * Suc (n div 12) = Suc n"
      using year_end_last [OF True] by simp
    have "gen_loop64 impl metrics cfg (Suc n) =
      \<lparr> currentCash64 = cash_after64 impl metrics cfg (Suc n),
        yearlyRevenueAccum64 = F 0, yearlyExpenseAccum64 = F 0,
        data64 = map (year_row64 impl metrics cfg) [0..<n div 12]
                  @ [year_row64 impl metrics cfg (n div 12)] \<rparr>"
      unfolding step gen_step64_unfold
      using True assms by (simp add: year_row64_flush [OF True] cash_after64_Suc)
    then show ?thesis
      unfolding d e by (simp add: jsum64_Nil)
  next
    case False
    have d: "Suc n div 12 = n div 12"
      by (rule year_mid_div [OF False])
    show ?thesis
      unfolding step gen_step64_unfold d
      using False assms le by (simp add: cash_after64_Suc jsum64_snoc)
  qed
qed

lemma generateData64_monthly:
  "interval cfg = monthly \<Longrightarrow>
   generateData64 impl metrics cfg = map (month_row64 impl metrics cfg) [0..<durationYears cfg * 12]"
  by (simp add: generateData64_def gen_loop64_monthly)

lemma generateData64_yearly:
  "interval cfg = yearly \<Longrightarrow>
   generateData64 impl metrics cfg = map (year_row64 impl metrics cfg) [0..<durationYears cfg]"
  by (simp add: generateData64_def gen_loop64_yearly)

lemma generateData64_monthly_nth:
  "interval cfg = monthly \<Longrightarrow> i < durationYears cfg * 12 \<Longrightarrow>
   generateData64 impl metrics cfg ! i = month_row64 impl metrics cfg i"
  by (simp add: generateData64_monthly)

lemma generateData64_yearly_nth:
  "interval cfg = yearly \<Longrightarrow> k < durationYears cfg \<Longrightarrow>
   generateData64 impl metrics cfg ! k = year_row64 impl metrics cfg k"
  by (simp add: generateData64_yearly)

lemma month_revenue64_interval [simp]:
  "month_revenue64 impl metrics (cfg\<lparr>interval := v\<rparr>) = month_revenue64 impl metrics cfg"
  by (simp add: month_revenue64_def fun_eq_iff)

lemma month_expense64_interval [simp]:
  "month_expense64 metrics (cfg\<lparr>interval := v\<rparr>) = month_expense64 metrics cfg"
  by (simp add: month_expense64_def fun_eq_iff)

lemma month_profit64_interval [simp]:
  "month_profit64 impl metrics (cfg\<lparr>interval := v\<rparr>) = month_profit64 impl metrics cfg"
  by (simp add: month_profit64_def fun_eq_iff)

lemma cash_after64_interval [simp]:
  "cash_after64 impl metrics (cfg\<lparr>interval := v\<rparr>) = cash_after64 impl metrics cfg"
  by (simp add: cash_after64_def fun_eq_iff)


section \<open>The projections of the scenarios\<close>

text \<open>
  The monthly values and the running balance for the two metrics defined above.
\<close>

lemma rounding_month_revenue:
  "i < 12 \<Longrightarrow> month_revenue64 impl rounding_metrics64 flat_config i = F 0"
  by (simp add: month_revenue64_def rounding_metrics64_def initial_metrics64_def Math_pow_def
      f64_ops)

lemma rounding_month_expense:
  "month_expense64 rounding_metrics64 flat_config i = F 1"
  by (simp add: month_expense64_def rounding_metrics64_def initial_metrics64_def flat_config_def
      zero_growth_expense_factor)
    (simp add: f64_ops)

lemma rounding_month_profit:
  "i < 12 \<Longrightarrow> month_profit64 impl rounding_metrics64 flat_config i = F (- 1)"
  by (simp add: month_profit64_def rounding_month_revenue rounding_month_expense)
    (simp add: f64_ops)

lemma rounding_cash_after:
  "n \<le> 12 \<Longrightarrow>
   cash_after64 impl rounding_metrics64 flat_config n
     = F (- 9007199254740992)"
proof (induction n)
  case 0
  show ?case by (simp add: cash_after64_0 rounding_metrics64_def initial_metrics64_def)
next
  case (Suc n)
  then show ?case
    by (simp add: cash_after64_Suc rounding_month_profit tie_step)
qed

lemma rounding_revenue_sum:
  "n \<le> 12 \<Longrightarrow>
   jsum64 (map (month_revenue64 impl rounding_metrics64 flat_config) [0..<n])
     = F 0"
proof (induction n)
  case 0
  show ?case by (simp add: jsum64_Nil)
next
  case (Suc n)
  then show ?case
    by (simp add: jsum64_snoc rounding_month_revenue) (simp add: f64_ops)
qed

lemma rounding_expense_sum:
  "n \<le> 12 \<Longrightarrow>
   jsum64 (map (month_expense64 rounding_metrics64 flat_config) [0..<n])
     = F (real n)"
proof (induction n)
  case 0
  show ?case by (simp add: jsum64_Nil)
next
  case (Suc n)
  then have n: "n < 12" by simp
  have "fadd (F (real n)) (F 1) = round64 (real (Suc n))"
    by (simp add: f64_ops add.commute)
  also have "\<dots> = F (real (Suc n))"
    by (rule round64_nat) (use n in simp)
  finally show ?case
    using Suc by (simp add: jsum64_snoc rounding_month_expense del: of_nat_Suc)
qed

lemma overflow_month_revenue:
  "month_revenue64 impl overflow_metrics64 flat_config 0 = F 0"
  by (simp add: month_revenue64_def overflow_metrics64_def initial_metrics64_def Math_pow_def
      f64_ops)

lemma overflow_month_expense:
  "month_expense64 overflow_metrics64 flat_config 0 = F two_1020"
  by (simp add: month_expense64_def overflow_metrics64_def initial_metrics64_def
      flat_config_def zero_growth_expense_factor)
    (simp add: f64_ops round64_two_1020)

lemma overflow_month_profit:
  "month_profit64 impl overflow_metrics64 flat_config 0 = F (- two_1020)"
  by (simp add: month_profit64_def overflow_month_revenue overflow_month_expense)
    (simp add: f64_ops round64_minus_two_1020)

lemma overflow_first_balance:
  "cash_after64 impl overflow_metrics64 flat_config (Suc 0) = NegInf"
proof -
  have "cash_after64 impl overflow_metrics64 flat_config (Suc 0) =
      fadd (F (- (15 * two_1020))) (F (- two_1020))"
    by (simp add: cash_after64_Suc cash_after64_0 overflow_month_profit)
      (simp add: overflow_metrics64_def initial_metrics64_def)
  also have "\<dots> = round64 (- (15 * two_1020) + - two_1020)"
    by (simp add: f64_ops)
  also have "- (15 * two_1020) + - two_1020 = - (16 * two_1020)"
    by simp
  finally show ?thesis by (simp only: round64_overflow)
qed


section \<open>Properties of the metrics\<close>

text \<open>The equations that evaluate \<open>derive\<close>.\<close>

lemmas derive_simps = derive_def Let_def jsub_def signed_inf_def

text \<open>
  Claim C1 (every ratio metric is finite, and is the sentinel 0 when a denominator is
  zero).  The operational-safety target divides by \<open>daysOpen\<close> and by \<open>avgTicket\<close>
  under the guard \<open>denominator > 0\<close> alone, while the wealth-building target beside it
  also asks for \<open>daysOpen > 0\<close>: with the default form state and \<open>daysOpen = 0\<close> the
  metric is \<open>Infinity\<close>, not 0.
\<close>

theorem derive_margin_target_infinite:
  "requiredDailyCustomersForMargin (derive closed_shop_inputs) = PInf"
  by (simp add: closed_shop_inputs_def default_inputs_def derive_simps)


text \<open>
  Claim C2 (payback): when the net profit is positive, \<open>roiYears\<close> and
  \<open>breakEvenMonths\<close> are the total investment divided by the annual and by the monthly
  net profit; otherwise both are the sentinel 0, which is not an infinity.  The
  quotients of the first branch are the results of the division of the language; the
  statement does not bound them.
\<close>

theorem derive_payback:
  "(jgt (netProfit (derive inp)) (Fin 0) \<longrightarrow>
      roiYears (derive inp) = jdiv (totalInvestment (derive inp)) (netProfit (derive inp)) \<and>
      breakEvenMonths (derive inp) = jdiv (totalInvestment (derive inp)) (monthlyNet (derive inp))) \<and>
   (\<not> jgt (netProfit (derive inp)) (Fin 0) \<longrightarrow>
      roiYears (derive inp) = Fin 0 \<and> breakEvenMonths (derive inp) = Fin 0)"
  by (simp add: derive_simps)

text \<open>
  Both branches of C2 occur: the scenario with lower fixed costs is profitable, the
  default form state is not.
\<close>

theorem derive_payback_witness:
  "jgt (netProfit (derive profitable_inputs)) (Fin 0) \<and>
   roiYears (derive profitable_inputs) = Fin (925 / 472) \<and>
   breakEvenMonths (derive profitable_inputs) = Fin (2775 / 118) \<and>
   \<not> jgt (netProfit (derive default_inputs)) (Fin 0) \<and>
   roiYears (derive default_inputs) = Fin 0 \<and>
   breakEvenMonths (derive default_inputs) = Fin 0"
proof -
  have p: "jgt (netProfit (derive profitable_inputs)) (Fin 0)"
    by (simp add: profitable_inputs_def default_inputs_def derive_simps)
  have ti: "totalInvestment (derive profitable_inputs) = Fin 925000"
    and np: "netProfit (derive profitable_inputs) = Fin 472000"
    and mn: "monthlyNet (derive profitable_inputs) = Fin (472000 / 12)"
    by (simp_all add: profitable_inputs_def default_inputs_def derive_simps)
  have n: "\<not> jgt (netProfit (derive default_inputs)) (Fin 0)"
    by (simp add: default_inputs_def derive_simps)
  from derive_payback [of profitable_inputs] p
  have "roiYears (derive profitable_inputs) = Fin (925 / 472) \<and>
        breakEvenMonths (derive profitable_inputs) = Fin (2775 / 118)"
    unfolding ti np mn by simp
  moreover from derive_payback [of default_inputs] n
  have "roiYears (derive default_inputs) = Fin 0 \<and> breakEvenMonths (derive default_inputs) = Fin 0"
    by blast
  ultimately show ?thesis using p n by blast
qed


text \<open>
  Claim C3 (zero revenue gives \<open>marginPercent = 0\<close> and \<open>roiYears = 0\<close>) as stated
  fails for \<open>roiYears\<close>: without customers and with a rent of \<open>-50000\<close> the net profit
  is \<open>600000\<close>, and the payback \<open>925000 / 600000\<close> is computed.
\<close>

theorem derive64_zero_revenue_counterexample:
  "is_zero (dailyCust64 subsidised_inputs64) \<and>
   roiYears64 (derive64 subsidised_inputs64) = F (6943049425529515 / 4503599627370496) \<and>
   roiYears64 (derive64 subsidised_inputs64) \<noteq> F 0"
proof -
  have v: "fmul (F 0) (fdiv (F 30) (F 100)) = F 0" "fmul (F 0) (fdiv (F 25) (F 100)) = F 0"
    "fmul (F 0) (fdiv (F 6) (F 100)) = F 0" "fmul (F 0) (fdiv (F 2) (F 100)) = F 0"
    using fmul_zero_round64 [of "3 / 10"] fmul_zero_round64 [of "1 / 4"]
      fmul_zero_round64 [of "3 / 50"] fmul_zero_round64 [of "1 / 50"]
    by (simp_all add: fdiv_def is_inf_def is_zero_def)
  have rev: "fmul (fmul (F 100) (F 0)) (F 320) = F 0"
    by (simp add: f64_ops)
  have tot: "fadd (fadd (fadd (fadd (fadd (fadd (F 0) (F 0)) (F 0)) (F 0))
      (fmul (F (- 50000)) (F 12))) (fmul (F 0) (F 12))) (fmul (F 0) (F 12)) = F (- 600000)"
    by (simp add: f64_ops)
  have np: "fsub (F 0) (F (- 600000)) = F 600000"
    by (simp add: f64_ops)
  have ti: "fadd (fadd (fadd (F 500000) (F 300000)) (F 75000)) (F 50000) = F 925000"
    by (simp add: f64_ops)
  have "roiYears64 (derive64 subsidised_inputs64) = F (6943049425529515 / 4503599627370496)"
    by (simp add: derive64_def Let_def subsidised_inputs64_def default_inputs64_def
        rev v tot np ti payback_step fgt_def fless_def)
  then show ?thesis
    by (simp add: subsidised_inputs64_def default_inputs64_def is_zero_def)
qed

text \<open>
  Claim C3, amended, in double arithmetic: when \<open>daysOpen\<close>, \<open>avgTicket\<close> or
  \<open>dailyCust\<close> is zero, or the annual revenue that the code computes from them is zero,
  the margin is 0, and \<open>roiYears\<close> is 0 provided that \<open>rentMonthly\<close>,
  \<open>salariesMonthly\<close> and \<open>miscMonthly\<close> are each \<open>>= 0\<close>.  (A condition on the sum of
  the three would not do: the code multiplies each by 12 and adds the products one by
  one to the variable costs, every step rounding.)
\<close>

theorem derive64_zero_revenue:
  assumes "is_zero (daysOpen64 inp) \<or> is_zero (avgTicket64 inp) \<or> is_zero (dailyCust64 inp) \<or>
    is_zero (annualRevenue64 (derive64 inp))"
  shows "margin64 (derive64 inp) = F 0 \<and>
    (fge (rentMonthly64 inp) (F 0) \<and> fge (salariesMonthly64 inp) (F 0) \<and>
     fge (miscMonthly64 inp) (F 0) \<longrightarrow> roiYears64 (derive64 inp) = F 0)"
proof (intro conjI impI)
  define rev where "rev = fmul (fmul (avgTicket64 inp) (dailyCust64 inp)) (daysOpen64 inp)"
  have ar: "annualRevenue64 (derive64 inp) = rev"
    by (simp add: derive64_def Let_def rev_def)
  have z: "zero_or_nan rev"
  proof -
    from assms consider "zero_or_nan (daysOpen64 inp)" | "zero_or_nan (avgTicket64 inp)"
      | "zero_or_nan (dailyCust64 inp)" | "zero_or_nan rev"
      unfolding ar by (auto simp add: zero_or_nan_def)
    then show ?thesis
    proof cases
      case 4
      then show ?thesis .
    next
      case 1
      then show ?thesis unfolding rev_def by (rule zero_or_nan_fmul_right)
    next
      case 2
      then show ?thesis unfolding rev_def
        by (intro zero_or_nan_fmul_left)
    next
      case 3
      then have "zero_or_nan (fmul (avgTicket64 inp) (dailyCust64 inp))"
        by (rule zero_or_nan_fmul_right)
      then show ?thesis unfolding rev_def by (rule zero_or_nan_fmul_left)
    qed
  qed
  show "margin64 (derive64 inp) = F 0"
    using zero_or_nan_not_fgt [OF z] by (simp add: derive64_def Let_def rev_def)
  assume f: "fge (rentMonthly64 inp) (F 0) \<and> fge (salariesMonthly64 inp) (F 0) \<and>
     fge (miscMonthly64 inp) (F 0)"
  define var where "var =
    fadd (fadd (fadd (fmul rev (fdiv (cogsPercent64 inp) (F 100)))
                     (fmul rev (fdiv (laborPercent64 inp) (F 100))))
               (fmul rev (fdiv (royaltyPercent64 inp) (F 100))))
         (fmul rev (fdiv (marketingPercent64 inp) (F 100)))"
  have zv: "zero_or_nan var"
    unfolding var_def by (intro zero_or_nan_fadd zero_or_nan_fmul_left z)
  define total where "total =
    fadd (fadd (fadd var (fmul (rentMonthly64 inp) (F 12))) (fmul (salariesMonthly64 inp) (F 12)))
      (fmul (miscMonthly64 inp) (F 12))"
  have nt: "nonneg_or_nan total"
    unfolding total_def using f
    by (intro nonneg_or_nan_fadd zero_or_nan_nonneg zv fge_fmul_twelve) simp_all
  have np: "netProfit64 (derive64 inp) = fsub rev total"
    by (simp add: derive64_def Let_def rev_def total_def var_def)
  have "\<not> fgt (fsub rev total) (F 0)"
    by (rule not_fgt_zero_minus_nonneg [OF z nt])
  then show "roiYears64 (derive64 inp) = F 0"
    by (simp add: derive64_def Let_def rev_def total_def var_def)
qed

text \<open>
  The hypotheses of the amended C3 hold for the shop that is open on no day.
\<close>

theorem derive64_zero_revenue_witness:
  "is_zero (daysOpen64 closed_shop_inputs64) \<and>
   fge (rentMonthly64 closed_shop_inputs64) (F 0) \<and>
   fge (salariesMonthly64 closed_shop_inputs64) (F 0) \<and>
   fge (miscMonthly64 closed_shop_inputs64) (F 0) \<and>
   margin64 (derive64 closed_shop_inputs64) = F 0 \<and>
   roiYears64 (derive64 closed_shop_inputs64) = F 0"
proof -
  have z: "is_zero (daysOpen64 closed_shop_inputs64)"
    by (simp add: closed_shop_inputs64_def default_inputs64_def is_zero_def)
  have f: "fge (rentMonthly64 closed_shop_inputs64) (F 0)"
    "fge (salariesMonthly64 closed_shop_inputs64) (F 0)"
    "fge (miscMonthly64 closed_shop_inputs64) (F 0)"
    by (simp_all add: closed_shop_inputs64_def default_inputs64_def f64_ops)
  from derive64_zero_revenue [of closed_shop_inputs64] z f show ?thesis by blast
qed


text \<open>
  Claim C4 (the concrete scenario of the specification, which is the default form state;
  the claim leaves the contract term open).
\<close>

theorem derive_default_scenario:
  "totalInvestment (derive (default_inputs\<lparr>contractTerm_input := c\<rparr>)) = Fin 925000 \<and>
   annualRevenue (derive (default_inputs\<lparr>contractTerm_input := c\<rparr>)) = Fin 1600000 \<and>
   annualExpenses (derive (default_inputs\<lparr>contractTerm_input := c\<rparr>)) = Fin 2208000 \<and>
   netProfit (derive (default_inputs\<lparr>contractTerm_input := c\<rparr>)) = Fin (- 608000) \<and>
   roiYears (derive (default_inputs\<lparr>contractTerm_input := c\<rparr>)) = Fin 0 \<and>
   breakEvenMonths (derive (default_inputs\<lparr>contractTerm_input := c\<rparr>)) = Fin 0 \<and>
   margin (derive (default_inputs\<lparr>contractTerm_input := c\<rparr>)) = Fin (- 38)"
  by (simp add: default_inputs_def derive_simps)


text \<open>
  Claim C5 (operational-safety target), in double arithmetic: with
  \<open>denominator = 1 - totalVariablePercent / 100 - 0.10\<close>, the metric is
  \<open>((monthlyFixed * 12) / denominator) / daysOpen / avgTicket\<close> when the denominator is
  positive and 0 otherwise; it is 0 whenever the variable cost percentage is 90 or more.
  Every operation is the rounded one of the code, and \<open>totalVariablePercent\<close> is the sum
  as the code computes it.
\<close>

theorem derive64_margin_target:
  "denominator64 inp =
     fsub (fsub (F 1) (fdiv (variableCostPercent64 inp) (F 100))) (round64 (1 / 10)) \<and>
   requiredDailyCustomersForMargin64 (derive64 inp) =
     (if fgt (denominator64 inp) (F 0)
      then fdiv (fdiv (fdiv (fmul (monthlyFixedCosts64 inp) (F 12)) (denominator64 inp))
                  (daysOpen64 inp)) (avgTicket64 inp)
      else F 0) \<and>
   (fge (variableCostPercent64 inp) (F 90) \<longrightarrow>
      requiredDailyCustomersForMargin64 (derive64 inp) = F 0)"
proof (intro conjI impI)
  show d: "denominator64 inp =
     fsub (fsub (F 1) (fdiv (variableCostPercent64 inp) (F 100))) (round64 (1 / 10))"
    by (simp add: denominator64_def Let_def)
  show r: "requiredDailyCustomersForMargin64 (derive64 inp) =
     (if fgt (denominator64 inp) (F 0)
      then fdiv (fdiv (fdiv (fmul (monthlyFixedCosts64 inp) (F 12)) (denominator64 inp))
                  (daysOpen64 inp)) (avgTicket64 inp)
      else F 0)"
    by (simp add: derive64_def Let_def)
  assume "fge (variableCostPercent64 inp) (F 90)"
  then have "\<not> fgt (denominator64 inp) (F 0)"
    unfolding d by (rule denominator_nonpos)
  then show "requiredDailyCustomersForMargin64 (derive64 inp) = F 0"
    unfolding r by simp
qed

text \<open>
  C5 at the form state with 93 percent variable costs, and at the form state whose
  percentages 30.1, 25.2, 23.4 and 11.3 sum, in doubles, to just below 90: there the
  denominator is positive and the target is \<open>450359962737049600\<close>.
\<close>

theorem derive64_margin_target_witness:
  "fge (variableCostPercent64 high_cost_inputs64) (F 90) \<and>
   requiredDailyCustomersForMargin64 (derive64 high_cost_inputs64) = F 0 \<and>
   variableCostPercent64 near_ninety_inputs64 = F (6333186975989759 / 70368744177664) \<and>
   fgt (denominator64 near_ninety_inputs64) (F 0) \<and>
   requiredDailyCustomersForMargin64 (derive64 near_ninety_inputs64) = F 450359962737049600"
proof -
  have h: "fge (variableCostPercent64 high_cost_inputs64) (F 90)"
    by (simp add: variableCostPercent64_def high_cost_inputs64_def default_inputs64_def f64_ops)
  have v: "variableCostPercent64 near_ninety_inputs64 = F (6333186975989759 / 70368744177664)"
    by (simp add: variableCostPercent64_def near_ninety_inputs64_def default_inputs64_def
        sum_step1 sum_step2 sum_step3)
  have d: "denominator64 near_ninety_inputs64 = F (3 / 36028797018963968)"
    by (simp add: denominator64_def Let_def v ratio_step one_minus_ratio_step round64_tenth
        denominator_step)
  have g: "fgt (denominator64 near_ninety_inputs64) (F 0)"
    unfolding d by (simp add: fgt_def fless_def)
  have m: "fmul (monthlyFixedCosts64 near_ninety_inputs64) (F 12) = F 1200000"
    by (simp add: monthlyFixedCosts64_def near_ninety_inputs64_def default_inputs64_def f64_ops)
  have dy: "daysOpen64 near_ninety_inputs64 = F 320" "avgTicket64 near_ninety_inputs64 = F 100"
    by (simp_all add: near_ninety_inputs64_def default_inputs64_def)
  note t = derive64_margin_target
  from t [of high_cost_inputs64] h
  have r1: "requiredDailyCustomersForMargin64 (derive64 high_cost_inputs64) = F 0" by blast
  from t [of near_ninety_inputs64] g
  have "requiredDailyCustomersForMargin64 (derive64 near_ninety_inputs64) =
    fdiv (fdiv (fdiv (fmul (monthlyFixedCosts64 near_ninety_inputs64) (F 12))
      (denominator64 near_ninety_inputs64)) (daysOpen64 near_ninety_inputs64))
      (avgTicket64 near_ninety_inputs64)"
    by simp
  then have r2: "requiredDailyCustomersForMargin64 (derive64 near_ninety_inputs64) =
      F 450359962737049600"
    unfolding m d dy required_revenue_step per_day_step per_ticket_step .
  from h r1 v g r2 show ?thesis by blast
qed


text \<open>
  Claim C10: \<open>breakEvenMonths\<close> is 12 times \<open>roiYears\<close>, for every form state.
\<close>

theorem derive_break_even_twelve_roi:
  "breakEvenMonths (derive inp) = jmul (Fin 12) (roiYears (derive inp))"
  by (simp add: derive_simps)


section \<open>Properties of the projection\<close>

text \<open>
  Claim C6: the sequence has \<open>durationYears * 12\<close> rows in the monthly view and
  \<open>ceil(durationYears * 12 / 12)\<close> rows in the yearly view; its rows are in strictly
  chronological order (the numbers of the period labels and the calendar months of the
  dates both increase strictly); a duration of 0 years gives no row.
\<close>

theorem generateData_length_order:
  "(interval cfg = monthly \<longrightarrow> length (generateData metrics cfg) = durationYears cfg * 12) \<and>
   (interval cfg = yearly \<longrightarrow>
      int (length (generateData metrics cfg)) = \<lceil>real (durationYears cfg * 12) / 12\<rceil>) \<and>
   sorted_wrt (<) (map (period_index \<circ> period) (generateData metrics cfg)) \<and>
   sorted_wrt (<) (map (date_key \<circ> date) (generateData metrics cfg)) \<and>
   (durationYears cfg = 0 \<longrightarrow> generateData metrics cfg = [])"
proof (cases "interval cfg")
  case monthly
  then show ?thesis
    using monthly_rows_ordered [of metrics cfg "durationYears cfg * 12"]
    by (simp add: generateData_monthly)
next
  case yearly
  then show ?thesis
    using yearly_rows_ordered [of metrics cfg "durationYears cfg"]
    by (simp add: generateData_yearly)
qed

text \<open>
  C6 at the initial state of the report (12 rows), at its yearly view (1 row) and at a
  duration of 0 years.
\<close>

theorem generateData_length_order_witness:
  "interval default_config = monthly \<and>
   length (generateData initial_metrics default_config) = 12 \<and>
   interval (default_config\<lparr>interval := yearly\<rparr>) = yearly \<and>
   length (generateData initial_metrics (default_config\<lparr>interval := yearly\<rparr>)) = 1 \<and>
   durationYears (default_config\<lparr>durationYears := 0\<rparr>) = 0 \<and>
   generateData initial_metrics (default_config\<lparr>durationYears := 0\<rparr>) = []"
  using generateData_length_order [where cfg = default_config and metrics = initial_metrics]
    generateData_length_order
      [where cfg = "default_config\<lparr>interval := yearly\<rparr>" and metrics = initial_metrics]
    generateData_length_order
      [where cfg = "default_config\<lparr>durationYears := 0\<rparr>" and metrics = initial_metrics]
  by (simp add: default_config_def)






text \<open>
  Claim C8 (the first row's cash balance is \<open>- totalInvestment\<close> plus the profit of that
  row) as stated fails in the yearly view.  The balance of the first yearly row is the
  result of twelve rounded monthly additions, while the profit of that row is the
  yearly revenue total minus the yearly expense total.  With a total investment of
  \<open>2 ^ 53\<close>, annual expenses of 12 and no revenue, each monthly addition of \<open>-1\<close> rounds
  back to \<open>- 2 ^ 53\<close>, so the balance of the row is \<open>- 2 ^ 53\<close>, whereas
  \<open>- totalInvestment\<close> plus the row's profit \<open>-12\<close> is \<open>- 2 ^ 53 - 12\<close>.
\<close>

theorem yearly_balance_rounding_counterexample:
  "interval (flat_config\<lparr>interval := yearly\<rparr>) = yearly \<and>
   1 \<le> durationYears (flat_config\<lparr>interval := yearly\<rparr>) \<and>
   cashBalance64 (generateData64 pow_repeated rounding_metrics64
       (flat_config\<lparr>interval := yearly\<rparr>) ! 0) = F (- 9007199254740992) \<and>
   profit64 (generateData64 pow_repeated rounding_metrics64
       (flat_config\<lparr>interval := yearly\<rparr>) ! 0) = F (- 12) \<and>
   fadd (fneg (totalInvestment64 rounding_metrics64))
     (profit64 (generateData64 pow_repeated rounding_metrics64
       (flat_config\<lparr>interval := yearly\<rparr>) ! 0)) = F (- 9007199254741004) \<and>
   cashBalance64 (generateData64 pow_repeated rounding_metrics64
       (flat_config\<lparr>interval := yearly\<rparr>) ! 0) \<noteq>
     fadd (fneg (totalInvestment64 rounding_metrics64))
       (profit64 (generateData64 pow_repeated rounding_metrics64
         (flat_config\<lparr>interval := yearly\<rparr>) ! 0))"
proof -
  let ?C = "flat_config\<lparr>interval := yearly\<rparr>"
  have y: "interval ?C = yearly" by simp
  have d: "1 \<le> durationYears ?C" "0 < durationYears ?C"
    by (simp_all add: flat_config_def default_config_def)
  have row: "generateData64 pow_repeated rounding_metrics64 ?C ! 0 =
      year_row64 pow_repeated rounding_metrics64 ?C 0"
    by (rule generateData64_yearly_nth [OF y d(2)])
  have c: "cashBalance64 (year_row64 pow_repeated rounding_metrics64 ?C 0) = F (- 9007199254740992)"
    using rounding_cash_after [of 12 pow_repeated] by (simp add: year_row64_def)
  have p: "profit64 (year_row64 pow_repeated rounding_metrics64 ?C 0) = F (- 12)"
    using rounding_revenue_sum [of 12 pow_repeated] rounding_expense_sum [of 12]
    by (simp add: year_row64_def) (simp add: f64_ops)
  have t: "fneg (totalInvestment64 rounding_metrics64) = F (- 9007199254740992)"
    by (simp add: rounding_metrics64_def initial_metrics64_def)
  show ?thesis
    unfolding row c p t first_row_step using y d(1) by simp
qed

text \<open>
  Claim C8, amended, in double arithmetic: the running cash balance starts at
  \<open>- totalInvestment\<close>; in the monthly view with a duration of at least one year the
  cash balance of the first row is \<open>- totalInvestment\<close> plus the profit of that row, and
  the balance of every later row is that of the row before plus the row's own profit;
  in the yearly view the balance of the row of year \<open>k\<close> is the monthly balance after
  month \<open>12 k + 11\<close>; the balance is never clamped: a balance of \<open>-Infinity\<close>, below
  every number, is reported as computed.
\<close>

theorem cash_balance64_running:
  "currentCash64 (gen_init64 metrics) = fneg (totalInvestment64 metrics) \<and>
   (interval cfg = monthly \<and> 1 \<le> durationYears cfg \<longrightarrow>
      cashBalance64 (generateData64 impl metrics cfg ! 0) =
        fadd (fneg (totalInvestment64 metrics)) (profit64 (generateData64 impl metrics cfg ! 0))) \<and>
   (interval cfg = monthly \<longrightarrow>
      (\<forall>i. Suc i < length (generateData64 impl metrics cfg) \<longrightarrow>
         cashBalance64 (generateData64 impl metrics cfg ! Suc i) =
           fadd (cashBalance64 (generateData64 impl metrics cfg ! i))
             (profit64 (generateData64 impl metrics cfg ! Suc i)))) \<and>
   (\<forall>k < durationYears cfg.
      cashBalance64 (generateData64 impl metrics (cfg\<lparr>interval := yearly\<rparr>) ! k) =
        cashBalance64 (generateData64 impl metrics (cfg\<lparr>interval := monthly\<rparr>) ! (12 * k + 11))) \<and>
   (\<forall>B. fless (cashBalance64 (generateData64 impl overflow_metrics64 flat_config ! 0)) (F B))"
proof (intro conjI impI allI)
  show "currentCash64 (gen_init64 metrics) = fneg (totalInvestment64 metrics)"
    by (simp add: gen_init64_def)
next
  assume a: "interval cfg = monthly \<and> 1 \<le> durationYears cfg"
  then have m: "interval cfg = monthly" and d: "0 < durationYears cfg * 12" by simp_all
  show "cashBalance64 (generateData64 impl metrics cfg ! 0) =
        fadd (fneg (totalInvestment64 metrics)) (profit64 (generateData64 impl metrics cfg ! 0))"
    unfolding generateData64_monthly_nth [OF m d]
    by (simp add: month_row64_def cash_after64_Suc cash_after64_0)
next
  fix i
  assume m: "interval cfg = monthly"
    and i: "Suc i < length (generateData64 impl metrics cfg)"
  from i have a: "Suc i < durationYears cfg * 12" and b: "i < durationYears cfg * 12"
    by (simp_all add: generateData64_monthly [OF m])
  show "cashBalance64 (generateData64 impl metrics cfg ! Suc i) =
      fadd (cashBalance64 (generateData64 impl metrics cfg ! i))
        (profit64 (generateData64 impl metrics cfg ! Suc i))"
    unfolding generateData64_monthly_nth [OF m a] generateData64_monthly_nth [OF m b]
    by (simp add: month_row64_def cash_after64_Suc)
next
  fix k
  assume k: "k < durationYears cfg"
  let ?Y = "cfg\<lparr>interval := yearly\<rparr>" and ?M = "cfg\<lparr>interval := monthly\<rparr>"
  have y: "interval ?Y = yearly" and m: "interval ?M = monthly" by simp_all
  have ky: "k < durationYears ?Y" and km: "12 * k + 11 < durationYears ?M * 12"
    using k by simp_all
  show "cashBalance64 (generateData64 impl metrics ?Y ! k) =
        cashBalance64 (generateData64 impl metrics ?M ! (12 * k + 11))"
    unfolding generateData64_yearly_nth [OF y ky] generateData64_monthly_nth [OF m km]
    by (simp add: year_row64_def month_row64_def add.commute)
next
  fix B :: real
  have m: "interval flat_config = monthly" and d: "0 < durationYears flat_config * 12"
    by (simp_all add: flat_config_def default_config_def)
  have "cashBalance64 (generateData64 impl overflow_metrics64 flat_config ! 0) = NegInf"
    unfolding generateData64_monthly_nth [OF m d]
    by (simp add: month_row64_def overflow_first_balance)
  then show "fless (cashBalance64 (generateData64 impl overflow_metrics64 flat_config ! 0)) (F B)"
    by (simp add: fless_def)
qed

text \<open>
  The amended C8 at the metrics of the default form state.
\<close>

theorem cash_balance64_running_witness:
  "interval default_config = monthly \<and> 1 \<le> durationYears default_config \<and>
   cashBalance64 (generateData64 pow_repeated (derive64 default_inputs64) default_config ! 0) =
     fadd (fneg (totalInvestment64 (derive64 default_inputs64)))
       (profit64 (generateData64 pow_repeated (derive64 default_inputs64) default_config ! 0)) \<and>
   Suc 0 < length (generateData64 pow_repeated (derive64 default_inputs64) default_config) \<and>
   cashBalance64 (generateData64 pow_repeated (derive64 default_inputs64) default_config ! Suc 0) =
     fadd (cashBalance64 (generateData64 pow_repeated (derive64 default_inputs64) default_config ! 0))
       (profit64 (generateData64 pow_repeated (derive64 default_inputs64) default_config ! Suc 0)) \<and>
   0 < durationYears default_config \<and>
   cashBalance64 (generateData64 pow_repeated (derive64 default_inputs64)
       (default_config\<lparr>interval := yearly\<rparr>) ! 0) =
     cashBalance64 (generateData64 pow_repeated (derive64 default_inputs64)
       (default_config\<lparr>interval := monthly\<rparr>) ! 11)"
proof -
  have m: "interval default_config = monthly" and d: "1 \<le> durationYears default_config"
    and k: "0 < durationYears default_config"
    by (simp_all add: default_config_def)
  have l: "Suc 0 < length (generateData64 pow_repeated (derive64 default_inputs64) default_config)"
    by (simp add: generateData64_monthly [OF m]) (simp add: default_config_def)
  note t = cash_balance64_running
    [where metrics = "derive64 default_inputs64" and cfg = default_config and impl = pow_repeated]
  from t m d have 1:
    "cashBalance64 (generateData64 pow_repeated (derive64 default_inputs64) default_config ! 0) =
     fadd (fneg (totalInvestment64 (derive64 default_inputs64)))
       (profit64 (generateData64 pow_repeated (derive64 default_inputs64) default_config ! 0))"
    by blast
  from t m l have 2:
    "cashBalance64 (generateData64 pow_repeated (derive64 default_inputs64) default_config ! Suc 0) =
     fadd (cashBalance64 (generateData64 pow_repeated (derive64 default_inputs64) default_config ! 0))
       (profit64 (generateData64 pow_repeated (derive64 default_inputs64) default_config ! Suc 0))"
    by blast
  from t k have "cashBalance64 (generateData64 pow_repeated (derive64 default_inputs64)
       (default_config\<lparr>interval := yearly\<rparr>) ! 0) =
     cashBalance64 (generateData64 pow_repeated (derive64 default_inputs64)
       (default_config\<lparr>interval := monthly\<rparr>) ! (12 * 0 + 11))"
    by blast
  then have 3: "cashBalance64 (generateData64 pow_repeated (derive64 default_inputs64)
       (default_config\<lparr>interval := yearly\<rparr>) ! 0) =
     cashBalance64 (generateData64 pow_repeated (derive64 default_inputs64)
       (default_config\<lparr>interval := monthly\<rparr>) ! 11)"
    by simp
  from m d 1 l 2 k 3 show ?thesis by blast
qed


text \<open>
  Claim C9: the yearly view aggregates the monthly view of the same metrics and
  configuration.  Row \<open>k\<close> of the yearly view has as revenue and as expenses the sums,
  in the order of the months, of the revenue and of the expenses of the monthly rows
  \<open>12 k, \<dots>, 12 k + 11\<close>; its profit is that revenue minus those expenses; its cash
  balance is the one of the monthly row \<open>12 k + 11\<close>.
\<close>

theorem yearly_aggregates_monthly:
  assumes "k < durationYears cfg"
  shows "length (generateData metrics (cfg\<lparr>interval := yearly\<rparr>)) = durationYears cfg \<and>
    length (generateData metrics (cfg\<lparr>interval := monthly\<rparr>)) = 12 * durationYears cfg \<and>
    revenue (generateData metrics (cfg\<lparr>interval := yearly\<rparr>) ! k) =
      jsum (map (\<lambda>i. revenue (generateData metrics (cfg\<lparr>interval := monthly\<rparr>) ! i))
             [12 * k..<12 * k + 12]) \<and>
    expenses (generateData metrics (cfg\<lparr>interval := yearly\<rparr>) ! k) =
      jsum (map (\<lambda>i. expenses (generateData metrics (cfg\<lparr>interval := monthly\<rparr>) ! i))
             [12 * k..<12 * k + 12]) \<and>
    profit (generateData metrics (cfg\<lparr>interval := yearly\<rparr>) ! k) =
      jsub (jsum (map (\<lambda>i. revenue (generateData metrics (cfg\<lparr>interval := monthly\<rparr>) ! i))
                   [12 * k..<12 * k + 12]))
           (jsum (map (\<lambda>i. expenses (generateData metrics (cfg\<lparr>interval := monthly\<rparr>) ! i))
                   [12 * k..<12 * k + 12])) \<and>
    cashBalance (generateData metrics (cfg\<lparr>interval := yearly\<rparr>) ! k) =
      cashBalance (generateData metrics (cfg\<lparr>interval := monthly\<rparr>) ! (12 * k + 11))"
proof -
  let ?Y = "cfg\<lparr>interval := yearly\<rparr>" and ?M = "cfg\<lparr>interval := monthly\<rparr>"
  have y: "interval ?Y = yearly" and m: "interval ?M = monthly" by simp_all
  have ky: "k < durationYears ?Y" using assms by simp
  have mi: "generateData metrics ?M ! i = month_row metrics ?M i"
    if "i \<in> set [12 * k..<12 * k + 12]" for i
  proof -
    from that assms have "i < durationYears ?M * 12" by simp
    then show ?thesis by (rule generateData_monthly_nth [OF m])
  qed
  have rev: "map (\<lambda>i. revenue (generateData metrics ?M ! i)) [12 * k..<12 * k + 12] =
             map (month_revenue metrics cfg) [12 * k..<12 * k + 12]"
    by (rule map_cong [OF refl]) (simp add: mi month_row_def)
  have exp: "map (\<lambda>i. expenses (generateData metrics ?M ! i)) [12 * k..<12 * k + 12] =
             map (month_expense metrics cfg) [12 * k..<12 * k + 12]"
    by (rule map_cong [OF refl]) (simp add: mi month_row_def)
  have last: "generateData metrics ?M ! (12 * k + 11) = month_row metrics ?M (12 * k + 11)"
    by (rule mi) simp
  show ?thesis
    unfolding rev exp last generateData_yearly_nth [OF y ky]
    by (simp add: generateData_yearly generateData_monthly year_row_def month_row_def add.commute)
qed

text \<open>
  C9 at the third year of the three-year projection.
\<close>

theorem yearly_aggregates_monthly_witness:
  "2 < durationYears growth_config \<and>
   length (generateData (derive default_inputs) (growth_config\<lparr>interval := yearly\<rparr>)) = 3 \<and>
   length (generateData (derive default_inputs) (growth_config\<lparr>interval := monthly\<rparr>)) = 36 \<and>
   cashBalance (generateData (derive default_inputs) (growth_config\<lparr>interval := yearly\<rparr>) ! 2) =
     cashBalance (generateData (derive default_inputs) (growth_config\<lparr>interval := monthly\<rparr>) ! 35) \<and>
   profit (generateData (derive default_inputs) (growth_config\<lparr>interval := yearly\<rparr>) ! 2) =
     jsub (jsum (map (\<lambda>i. revenue (generateData (derive default_inputs)
                   (growth_config\<lparr>interval := monthly\<rparr>) ! i)) [24..<36]))
          (jsum (map (\<lambda>i. expenses (generateData (derive default_inputs)
                   (growth_config\<lparr>interval := monthly\<rparr>) ! i)) [24..<36]))"
proof -
  have d: "2 < durationYears growth_config"
    by (simp add: growth_config_def)
  have n: "durationYears growth_config = 3"
    by (simp add: growth_config_def)
  from yearly_aggregates_monthly [OF d, where metrics = "derive default_inputs"] d
  show ?thesis
    by (simp add: n)
qed

end
